theory Spec2Isabelle
  imports Main "HOL-Library.Char_ord" "HOL-Library.List_Lexorder"
begin

section \<open>Data model\<close>

text \<open>
  The service (\<^verbatim>\<open>app.py\<close>) reads two JSON documents on every request and answers
  from them. A parsed JSON value is modelled as it reaches the Python code:
  \<^verbatim>\<open>None\<close>, \<^verbatim>\<open>bool\<close>, \<^verbatim>\<open>int\<close>, \<^verbatim>\<open>str\<close>, \<^verbatim>\<open>list\<close> and \<^verbatim>\<open>dict\<close>. A \<^verbatim>\<open>str\<close> is a
  \<^typ>\<open>string\<close> holding its UTF-8 bytes: splitting on \<^verbatim>\<open>-\<close>, replacing \<^verbatim>\<open>.zip\<close>
  and the code-point order of Python agree with the byte operations on that
  encoding. JSON floats are left out: the routes copy numbers and test them for
  truth, nothing else.

  A Python \<^verbatim>\<open>dict\<close> is an association list in insertion order whose keys are
  pairwise different; the layouts of the two documents are those of the
  repository's data files:
  \<^item> \<^verbatim>\<open>builds.json\<close>: an object from codename to an array of build objects;
  \<^item> \<^verbatim>\<open>devices.json\<close>: an array of device objects.
\<close>

datatype json =
    JNull
  | JBool bool
  | JInt int
  | JStr string
  | JList "json list"
  | JDict "(string \<times> json) list"

type_synonym pydict = "(string \<times> json) list"
type_synonym manifest = "(string \<times> pydict list) list"
type_synonym directory = "pydict list"

text \<open>The exceptions that the handlers can raise. \<open>ParserError\<close> is the date
  library's; \<open>NotModelled\<close> is answered only by the concrete library instances of
  the last section, outside the part of the libraries they cover.\<close>

datatype error =
    KeyError
  | IndexError
  | TypeError
  | AttributeError
  | ValueError
  | ParserError
  | NotModelled

text \<open>What a view function hands back to the framework.\<close>

record device_page =
  available_files :: "(string \<times> json) list"
  device :: string
  model :: json
  xda :: json
  maintainer :: json

datatype response =
    Plain string
  | Jsonify json
  | Render_latest "(json \<times> json) list" "(string \<times> string) list"
  | Render_device device_page
  | Returned_None

section \<open>Python primitives\<close>

text \<open>\<^verbatim>\<open>d[k]\<close> on a parsed JSON object raises \<^verbatim>\<open>KeyError\<close> when the key is missing;
  \<^verbatim>\<open>d.get(k)\<close> answers \<^verbatim>\<open>None\<close> instead.\<close>

definition getitem :: "pydict \<Rightarrow> string \<Rightarrow> error + json" where
  "getitem d k = (case map_of d k of None \<Rightarrow> Inl KeyError | Some v \<Rightarrow> Inr v)"

definition dict_get :: "pydict \<Rightarrow> string \<Rightarrow> json" where
  "dict_get d k = (case map_of d k of None \<Rightarrow> JNull | Some v \<Rightarrow> v)"

text \<open>Truth value of an object in a condition.\<close>

fun truthy :: "json \<Rightarrow> bool" where
  "truthy JNull = False"
| "truthy (JBool b) = b"
| "truthy (JInt n) = (n \<noteq> 0)"
| "truthy (JStr s) = (s \<noteq> [])"
| "truthy (JList xs) = (xs \<noteq> [])"
| "truthy (JDict kvs) = (kvs \<noteq> [])"

text \<open>\<^verbatim>\<open>d[k] = v\<close> on a dictionary with string keys: the value is replaced where the
  key already is, a new key goes to the end.\<close>

fun setitem :: "'k \<Rightarrow> 'v \<Rightarrow> ('k \<times> 'v) list \<Rightarrow> ('k \<times> 'v) list" where
  "setitem k v [] = [(k, v)]"
| "setitem k v ((k', v') # d) =
     (if k' = k then (k', v) # d else (k', v') # setitem k v d)"

text \<open>The dictionary of \<^verbatim>\<open>get_devices\<close> takes its keys from the data, so they can be
  any JSON value. Lists and dicts are unhashable (\<^verbatim>\<open>TypeError\<close>); among the others
  Python's key equality identifies \<^verbatim>\<open>True\<close> with \<^verbatim>\<open>1\<close> and \<^verbatim>\<open>False\<close> with \<^verbatim>\<open>0\<close>.\<close>

fun hashable :: "json \<Rightarrow> bool" where
  "hashable (JList xs) = False"
| "hashable (JDict kvs) = False"
| "hashable j = True"

fun key_eq :: "json \<Rightarrow> json \<Rightarrow> bool" where
  "key_eq (JBool b) (JInt n) = (n = (if b then 1 else 0))"
| "key_eq (JInt n) (JBool b) = (n = (if b then 1 else 0))"
| "key_eq a b = (a = b)"

fun key_setitem :: "json \<Rightarrow> 'v \<Rightarrow> (json \<times> 'v) list \<Rightarrow> (json \<times> 'v) list" where
  "key_setitem k v [] = [(k, v)]"
| "key_setitem k v ((k', v') # d) =
     (if key_eq k' k then (k', v) # d else (k', v') # key_setitem k v d)"

definition key_in :: "json \<Rightarrow> (json \<times> 'v) list \<Rightarrow> bool" where
  "key_in k d = list_ex (\<lambda>(k', v). key_eq k' k) d"

text \<open>\<^verbatim>\<open>s.split(c)\<close> for a one-character separator: always at least one field.\<close>

fun split_on :: "char \<Rightarrow> string \<Rightarrow> string list" where
  "split_on c [] = [[]]"
| "split_on c (x # xs) =
     (if x = c then [] # split_on c xs
      else (case split_on c xs of
              [] \<Rightarrow> [[x]]
            | f # fs \<Rightarrow> (x # f) # fs))"

text \<open>\<^verbatim>\<open>s.replace(old, new)\<close>: every occurrence, left to right, without overlap. With
  an empty \<open>old\<close> Python puts \<open>new\<close> before every character and at the end.\<close>

function replace :: "string \<Rightarrow> string \<Rightarrow> string \<Rightarrow> string" where
  "replace old new [] = (if old = [] then new else [])"
| "replace old new (x # xs) =
     (if old = [] then new @ x # replace old new xs
      else if take (length old) (x # xs) = old
        then new @ replace old new (drop (length old) (x # xs))
        else x # replace old new xs)"
  by pat_completeness auto
termination
  by (relation "measure (\<lambda>(old, new, s). length s)") auto

text \<open>\<^verbatim>\<open>s.rfind(c)\<close>: the highest index of \<open>c\<close>, or \<open>-1\<close>. The highest index is found
  by counting the characters after the last \<open>c\<close>.\<close>

definition rfind :: "char \<Rightarrow> string \<Rightarrow> int" where
  "rfind c s =
     (if c \<in> set s
      then int (length s) - 1 - int (length (takeWhile (\<lambda>x. x \<noteq> c) (rev s)))
      else - 1)"

text \<open>\<^verbatim>\<open>os.path.splitext\<close> (POSIX): the extension starts at the last dot, provided
  the dot comes after the last slash and some character between the two is not a
  dot (leading dots of the base name do not start an extension).\<close>

definition splitext :: "string \<Rightarrow> string \<times> string" where
  "splitext p =
     (let sepIndex = rfind (CHR ''/'') p;
          dotIndex = rfind (CHR ''.'') p
      in if sepIndex < dotIndex \<and>
            list_ex (\<lambda>i. p ! i \<noteq> CHR ''.'') [nat (sepIndex + 1)..<nat dotIndex]
         then (take (nat dotIndex) p, drop (nat dotIndex) p)
         else (p, []))"

text \<open>\<^verbatim>\<open>os.path.join\<close> (POSIX): a component that starts with a slash restarts the
  path, otherwise it is appended after exactly one separator.\<close>

definition join_step :: "string \<Rightarrow> string \<Rightarrow> string" where
  "join_step path b =
     (if b \<noteq> [] \<and> hd b = CHR ''/'' then b
      else if path = [] \<or> last path = CHR ''/'' then path @ b
      else path @ ''/'' @ b)"

definition os_path_join :: "string \<Rightarrow> string list \<Rightarrow> string" where
  "os_path_join a p = foldl join_step a p"

section \<open>Configuration and libraries\<close>

text \<open>
  \<open>DOWNLOAD_BASE_URL\<close> comes from the process environment. \<open>arrow_timestamp x\<close>
  stands for \<^verbatim>\<open>arrow.get(x).timestamp\<close> and \<open>py_str\<close> for what \<^verbatim>\<open>str.format\<close> prints
  for an argument that is not already a string; both belong to libraries.
  \<^verbatim>\<open>"{}{}{}".format(a, b, c)\<close> prints a string argument as it is.
\<close>

record env =
  DOWNLOAD_BASE_URL :: string
  arrow_timestamp :: "json \<Rightarrow> error + int"
  py_str :: "json \<Rightarrow> error + string"

definition ALLOWED_BUILDTYPES :: "string list" where
  "ALLOWED_BUILDTYPES = [''official'', ''gapps'']"

definition format_arg :: "env \<Rightarrow> json \<Rightarrow> error + string" where
  "format_arg e j = (case j of JStr s \<Rightarrow> Inr s | _ \<Rightarrow> py_str e j)"

section \<open>Manifest loader\<close>

text \<open>\<^verbatim>\<open>get_devices\<close>: \<^verbatim>\<open>{d['codename']: d['device'] for d in data}\<close>.\<close>

fun get_devices_from :: "directory \<Rightarrow> (json \<times> json) list \<Rightarrow> error + (json \<times> json) list" where
  "get_devices_from [] acc = Inr acc"
| "get_devices_from (d # ds) acc =
     (case getitem d ''codename'' of
        Inl e \<Rightarrow> Inl e
      | Inr k \<Rightarrow>
          (case getitem d ''device'' of
             Inl e \<Rightarrow> Inl e
           | Inr v \<Rightarrow>
               if \<not> hashable k then Inl TypeError
               else get_devices_from ds (key_setitem k v acc)))"

definition get_devices :: "directory \<Rightarrow> error + (json \<times> json) list" where
  "get_devices data = get_devices_from data []"

text \<open>\<^verbatim>\<open>get_zips\<close>: \<^verbatim>\<open>[build['filename'] for device in builds for build in builds[device]]\<close>.\<close>

fun filenames :: "pydict list \<Rightarrow> error + json list" where
  "filenames [] = Inr []"
| "filenames (build # rest) =
     (case getitem build ''filename'' of
        Inl e \<Rightarrow> Inl e
      | Inr f \<Rightarrow> (case filenames rest of Inl e \<Rightarrow> Inl e | Inr fs \<Rightarrow> Inr (f # fs)))"

fun get_zips :: "manifest \<Rightarrow> error + json list" where
  "get_zips [] = Inr []"
| "get_zips ((dev, builds) # rest) =
     (case filenames builds of
        Inl e \<Rightarrow> Inl e
      | Inr fs \<Rightarrow> (case get_zips rest of Inl e \<Rightarrow> Inl e | Inr gs \<Rightarrow> Inr (fs @ gs)))"

text \<open>\<^verbatim>\<open>get_latest\<close>: the loop returns the first build whose type is \<open>romtype\<close>, the
  empty dict when there is none.\<close>

fun get_latest_loop :: "pydict list \<Rightarrow> string \<Rightarrow> error + pydict" where
  "get_latest_loop [] romtype = Inr []"
| "get_latest_loop (build # rest) romtype =
     (case getitem build ''type'' of
        Inl e \<Rightarrow> Inl e
      | Inr t \<Rightarrow> if t = JStr romtype then Inr build else get_latest_loop rest romtype)"

definition get_latest :: "directory \<Rightarrow> manifest \<Rightarrow> string \<Rightarrow> string \<Rightarrow> error + pydict" where
  "get_latest data builds_json dev romtype =
     (case get_devices data of
        Inl e \<Rightarrow> Inl e
      | Inr devices \<Rightarrow>
          if \<not> key_in (JStr dev) devices then Inr []
          else (case map_of builds_json dev of
                  None \<Rightarrow> Inl KeyError
                | Some builds \<Rightarrow> get_latest_loop builds romtype))"

section \<open>Request router\<close>

subsection \<open>\<^verbatim>\<open>/<device>/<romtype>\<close>\<close>

text \<open>The fields of the answer are read in the order of the dict literal, so the
  first missing key or the date library decides which exception is raised.\<close>

definition ota :: "env \<Rightarrow> directory \<Rightarrow> manifest \<Rightarrow> string \<Rightarrow> string \<Rightarrow> error + response" where
  "ota e data builds_json dev romtype =
     (case get_latest data builds_json dev romtype of
        Inl err \<Rightarrow> Inl err
      | Inr rom \<Rightarrow>
          if rom = [] then Inr (Jsonify (JDict [(''response'', JList [])]))
          else
           (case getitem rom ''sha256'' of Inl err \<Rightarrow> Inl err | Inr sha \<Rightarrow>
            (case getitem rom ''filepath'' of Inl err \<Rightarrow> Inl err | Inr fp \<Rightarrow>
            (case getitem rom ''filename'' of Inl err \<Rightarrow> Inl err | Inr fn \<Rightarrow>
            (case format_arg e fp of Inl err \<Rightarrow> Inl err | Inr fp_str \<Rightarrow>
            (case format_arg e fn of Inl err \<Rightarrow> Inl err | Inr fn_str \<Rightarrow>
            (case getitem rom ''type'' of Inl err \<Rightarrow> Inl err | Inr ty \<Rightarrow>
            (case getitem rom ''date'' of Inl err \<Rightarrow> Inl err | Inr dt \<Rightarrow>
            (case arrow_timestamp e dt of Inl err \<Rightarrow> Inl err | Inr ts \<Rightarrow>
            (case getitem rom ''version'' of Inl err \<Rightarrow> Inl err | Inr ver \<Rightarrow>
            (case getitem rom ''size'' of Inl err \<Rightarrow> Inl err | Inr sz \<Rightarrow>
               Inr (Jsonify (JDict [(''response'', JList [JDict
                 [(''id'', sha),
                  (''url'', JStr (DOWNLOAD_BASE_URL e @ fp_str @ fn_str)),
                  (''romtype'', ty),
                  (''datetime'', JInt ts),
                  (''version'', ver),
                  (''filename'', fn),
                  (''size'', sz)]])])))))))))))))"

subsection \<open>\<^verbatim>\<open>/<target_device>\<close>\<close>

text \<open>The body of the loop over the device's builds.\<close>

definition record_build :: "(string \<times> json) list \<Rightarrow> pydict \<Rightarrow> error + (string \<times> json) list" where
  "record_build files build =
     (case dict_get build ''type'' of
        JStr buildtype \<Rightarrow>
          if buildtype \<in> set ALLOWED_BUILDTYPES then
            (let files1 = setitem buildtype (dict_get build ''filename'') files in
             (case (if truthy (dict_get build ''fastboot_images'')
                    then (case dict_get build ''filename'' of
                            JStr f \<Rightarrow> Inr (setitem (buildtype @ ''-img'')
                                             (JStr (replace ''.zip'' ''-img.zip'' f)) files1)
                          | _ \<Rightarrow> Inl AttributeError)
                    else Inr files1) of
                Inl err \<Rightarrow> Inl err
              | Inr files2 \<Rightarrow>
                  if truthy (dict_get build ''boot_image'')
                  then (case dict_get build ''filename'' of
                          JStr f \<Rightarrow> Inr (setitem (buildtype @ ''-boot'')
                                           (JStr (replace ''.zip'' ''-boot.img'' f)) files2)
                        | _ \<Rightarrow> Inl AttributeError)
                  else Inr files2))
          else Inr files
      | _ \<Rightarrow> Inr files)"

fun record_builds :: "pydict list \<Rightarrow> (string \<times> json) list \<Rightarrow> error + (string \<times> json) list" where
  "record_builds [] files = Inr files"
| "record_builds (build # rest) files =
     (case record_build files build of
        Inl err \<Rightarrow> Inl err
      | Inr files' \<Rightarrow> record_builds rest files')"

text \<open>The \<^verbatim>\<open>for ... else\<close> over the device directory: (model, xda, maintainer).\<close>

fun find_device :: "directory \<Rightarrow> string \<Rightarrow> error + (json \<times> json \<times> json)" where
  "find_device [] target = Inr (JStr target, JNull, JNull)"
| "find_device (d # ds) target =
     (case getitem d ''codename'' of
        Inl err \<Rightarrow> Inl err
      | Inr c \<Rightarrow>
          if c = JStr target
          then Inr (dict_get d ''device'', dict_get d ''xda'', dict_get d ''maintainer'')
          else find_device ds target)"

definition no_build_message :: "string \<Rightarrow> string" where
  "no_build_message target =
     ''There isn'' @ [CHR 0x27] @ ''t any build for '' @ target @ '' available here!''"

definition latest_device :: "directory \<Rightarrow> manifest \<Rightarrow> string \<Rightarrow> error + response" where
  "latest_device data builds_json target_device =
     (case map_of builds_json target_device of
        None \<Rightarrow> Inr (Plain (no_build_message target_device))
      | Some builds \<Rightarrow>
          (case record_builds builds [] of
             Inl err \<Rightarrow> Inl err
           | Inr files \<Rightarrow>
               (case find_device data target_device of
                  Inl err \<Rightarrow> Inl err
                | Inr (mdl, xda_url, maintainers) \<Rightarrow>
                    if files \<noteq> []
                    then Inr (Render_device
                           \<lparr>available_files = files, device = target_device,
                            model = mdl, xda = xda_url, maintainer = maintainers\<rparr>)
                    else Inr Returned_None)))"

subsection \<open>\<^verbatim>\<open>/\<close>\<close>

text \<open>
  The body of the loop over the zip names. \<open>strptime\<close> and \<open>strftime\<close> are the
  standard library's \<^verbatim>\<open>datetime.strptime\<close> and \<^verbatim>\<open>datetime.strftime\<close>, taken as
  parameters over any type \<open>'t\<close> of time stamps; a name that is not a string makes
  \<^verbatim>\<open>os.path.splitext\<close> raise \<^verbatim>\<open>TypeError\<close>.
\<close>

definition show_files_step ::
  "json \<Rightarrow> (json \<times> json) list \<times> (string \<times> string) list
     \<Rightarrow> error + (json \<times> json) list \<times> (string \<times> string) list" where
  "show_files_step zp st =
     (case zp of
        JStr name \<Rightarrow>
          (let (devices, build_dates) = st;
               z = fst (splitext name);
               fields = split_on (CHR ''-'') z
           in if length fields \<le> 3 then Inl IndexError
              else
               (let dev = fields ! 3;
                    devices' = (if \<not> key_in (JStr dev) devices
                                then key_setitem (JStr dev) (JStr dev) devices
                                else devices)
                in if length fields \<le> 4 then Inl IndexError
                   else
                    (let build_date = fields ! 4
                     in Inr (devices',
                          if (case map_of build_dates dev of
                                None \<Rightarrow> True
                              | Some cur \<Rightarrow> cur < build_date)
                          then setitem dev build_date build_dates
                          else build_dates))))
      | _ \<Rightarrow> Inl TypeError)"

fun show_files_loop ::
  "json list \<Rightarrow> (json \<times> json) list \<times> (string \<times> string) list
     \<Rightarrow> error + (json \<times> json) list \<times> (string \<times> string) list" where
  "show_files_loop [] st = Inr st"
| "show_files_loop (zp # zips) st =
     (case show_files_step zp st of
        Inl err \<Rightarrow> Inl err
      | Inr st' \<Rightarrow> show_files_loop zips st')"

definition display_date ::
  "(string \<Rightarrow> string \<Rightarrow> error + 't) \<Rightarrow> ('t \<Rightarrow> string \<Rightarrow> error + string) \<Rightarrow> string
     \<Rightarrow> error + string" where
  "display_date strptime strftime d =
     (case strptime d ''%Y%m%d'' of
        Inl err \<Rightarrow> Inl err
      | Inr t \<Rightarrow> strftime t ''%A, %d %B - %Y'')"

fun format_dates ::
  "(string \<Rightarrow> string \<Rightarrow> error + 't) \<Rightarrow> ('t \<Rightarrow> string \<Rightarrow> error + string)
     \<Rightarrow> (string \<times> string) list \<Rightarrow> error + (string \<times> string) list" where
  "format_dates strptime strftime [] = Inr []"
| "format_dates strptime strftime ((k, d) # rest) =
     (case display_date strptime strftime d of
        Inl err \<Rightarrow> Inl err
      | Inr shown \<Rightarrow>
          (case format_dates strptime strftime rest of
             Inl err \<Rightarrow> Inl err
           | Inr rest' \<Rightarrow> Inr ((k, shown) # rest')))"

definition show_files ::
  "(string \<Rightarrow> string \<Rightarrow> error + 't) \<Rightarrow> ('t \<Rightarrow> string \<Rightarrow> error + string)
     \<Rightarrow> directory \<Rightarrow> manifest \<Rightarrow> error + response" where
  "show_files strptime strftime data builds_json =
     (case get_zips builds_json of
        Inl err \<Rightarrow> Inl err
      | Inr zips \<Rightarrow>
          (case get_devices data of
             Inl err \<Rightarrow> Inl err
           | Inr devices \<Rightarrow>
               (case show_files_loop zips (devices, []) of
                  Inl err \<Rightarrow> Inl err
                | Inr (devices', build_dates) \<Rightarrow>
                    (case format_dates strptime strftime build_dates of
                       Inl err \<Rightarrow> Inl err
                     | Inr shown \<Rightarrow> Inr (Render_latest devices' shown)))))"

subsection \<open>\<^verbatim>\<open>/changelog/<device>\<close>\<close>

text \<open>
  \<open>requests_get\<close> is the upstream fetcher: it answers a URL from the state of the
  outside world \<open>'w\<close> and returns the state after the request, so that two
  requests need not see the same upstream.
\<close>

record http_response =
  status_code :: int
  body_text :: string

definition changelog_base_url :: string where
  "changelog_base_url =
     ''https://raw.githubusercontent.com/AOSiP-Devices/Updater-Stuff/master''"

definition changelog_device ::
  "('w \<Rightarrow> string \<Rightarrow> http_response \<times> 'w) \<Rightarrow> 'w \<Rightarrow> string \<Rightarrow> response \<times> 'w" where
  "changelog_device requests_get w dev =
     (let changelog_url = os_path_join changelog_base_url [''changelog''];
          device_changelog_url = os_path_join changelog_base_url [dev, ''changelog''];
          (r0, w1) = requests_get w changelog_url;
          changelog = body_text r0;
          (resp, w2) = requests_get w1 device_changelog_url
      in if status_code resp \<noteq> 200
         then (Plain (''Fetching changelog for '' @ dev @ '' failed!''), w2)
         else (Plain (replace [CHR 0x0A] ''<br>''
                        (changelog @ [CHR 0x0A] @ body_text resp)), w2))"

section \<open>The date libraries on the inputs of the examples\<close>

text \<open>
  The theorems below hold for every behaviour of \<open>strptime\<close>, \<open>strftime\<close> and
  \<open>arrow_timestamp\<close>. To run the handlers on concrete data, this section gives
  the part of those library functions that the handlers reach: the proleptic
  Gregorian calendar, \<^verbatim>\<open>strptime\<close> for the pattern \<^verbatim>\<open>%Y%m%d\<close> (ASCII digits),
  \<^verbatim>\<open>strftime\<close> for \<^verbatim>\<open>%A, %d %B - %Y\<close> in the C locale (the year printed without
  padding, as the C library does), and the time stamp of an ISO date
  \<^verbatim>\<open>YYYY-MM-DD\<close> at midnight UTC.
\<close>

record pydate =
  year :: int
  month :: int
  day :: int

definition is_digit :: "char \<Rightarrow> bool" where
  "is_digit c = (c \<in> set ''0123456789'')"

definition digit_val :: "char \<Rightarrow> int" where
  "digit_val c = int (of_char c) - 48"

definition int_of_digits :: "string \<Rightarrow> int" where
  "int_of_digits s = foldl (\<lambda>a c. 10 * a + digit_val c) 0 s"

definition is_leap :: "int \<Rightarrow> bool" where
  "is_leap y = (y mod 4 = 0 \<and> (y mod 100 \<noteq> 0 \<or> y mod 400 = 0))"

definition days_in_month :: "int \<Rightarrow> int \<Rightarrow> int" where
  "days_in_month y m =
     (if m = 2 then (if is_leap y then 29 else 28)
      else if m \<in> {4, 6, 9, 11} then 30 else 31)"

definition days_before_year :: "int \<Rightarrow> int" where
  "days_before_year y =
     (y - 1) * 365 + (y - 1) div 4 - (y - 1) div 100 + (y - 1) div 400"

definition days_before_month :: "int \<Rightarrow> int \<Rightarrow> int" where
  "days_before_month y m = sum_list (map (days_in_month y) [1..m - 1])"

definition ymd2ord :: "pydate \<Rightarrow> int" where
  "ymd2ord t = days_before_year (year t) + days_before_month (year t) (month t) + day t"

text \<open>Monday is day 0, as in \<^verbatim>\<open>date.weekday()\<close>.\<close>

definition weekday :: "pydate \<Rightarrow> nat" where
  "weekday t = nat ((ymd2ord t + 6) mod 7)"

definition day_names :: "string list" where
  "day_names = [''Monday'', ''Tuesday'', ''Wednesday'', ''Thursday'', ''Friday'',
     ''Saturday'', ''Sunday'']"

definition month_names :: "string list" where
  "month_names = [''January'', ''February'', ''March'', ''April'', ''May'', ''June'',
     ''July'', ''August'', ''September'', ''October'', ''November'', ''December'']"

text \<open>The alternatives of the month and day groups, in the order in which the
  library's regular expression tries them: \<^verbatim>\<open>1[0-2]|0[1-9]|[1-9]\<close> and
  \<^verbatim>\<open>3[0-1]|[1-2]\d|0[1-9]|[1-9]| [1-9]\<close>. Each match is the value with the rest of
  the input.\<close>

definition two_chars :: "(char \<Rightarrow> bool) \<Rightarrow> (char \<Rightarrow> bool) \<Rightarrow> string \<Rightarrow> (int \<times> string) list" where
  "two_chars p q r =
     (case r of
        a # b # rest \<Rightarrow>
          if p a \<and> q b
          then [(int_of_digits (filter is_digit [a, b]), rest)] else []
      | _ \<Rightarrow> [])"

definition one_char :: "(char \<Rightarrow> bool) \<Rightarrow> string \<Rightarrow> (int \<times> string) list" where
  "one_char p r = (case r of a # rest \<Rightarrow> if p a then [(digit_val a, rest)] else [] | _ \<Rightarrow> [])"

definition month_matches :: "string \<Rightarrow> (int \<times> string) list" where
  "month_matches r =
     two_chars (\<lambda>c. c = CHR ''1'') (\<lambda>c. c \<in> set ''012'') r
     @ two_chars (\<lambda>c. c = CHR ''0'') (\<lambda>c. c \<in> set ''123456789'') r
     @ one_char (\<lambda>c. c \<in> set ''123456789'') r"

definition day_matches :: "string \<Rightarrow> (int \<times> string) list" where
  "day_matches r =
     two_chars (\<lambda>c. c = CHR ''3'') (\<lambda>c. c \<in> set ''01'') r
     @ two_chars (\<lambda>c. c \<in> set ''12'') is_digit r
     @ two_chars (\<lambda>c. c = CHR ''0'') (\<lambda>c. c \<in> set ''123456789'') r
     @ one_char (\<lambda>c. c \<in> set ''123456789'') r
     @ two_chars (\<lambda>c. c = CHR '' '') (\<lambda>c. c \<in> set ''123456789'') r"

definition strptime_Ymd :: "string \<Rightarrow> error + pydate" where
  "strptime_Ymd s =
     (if length s < 4 \<or> \<not> list_all is_digit (take 4 s) then Inl ValueError
      else
       (case concat (map (\<lambda>(m, r). map (\<lambda>(d, r'). (m, d, r')) (day_matches r))
                      (month_matches (drop 4 s))) of
          [] \<Rightarrow> Inl ValueError
        | (m, d, rest) # others \<Rightarrow>
            (let y = int_of_digits (take 4 s)
             in if rest \<noteq> [] \<or> y < 1 \<or> days_in_month y m < d then Inl ValueError
                else Inr \<lparr>year = y, month = m, day = d\<rparr>)))"

definition py_strptime :: "string \<Rightarrow> string \<Rightarrow> error + pydate" where
  "py_strptime s fmt = (if fmt = ''%Y%m%d'' then strptime_Ymd s else Inl NotModelled)"

definition digit_char :: "nat \<Rightarrow> char" where
  "digit_char n = ''0123456789'' ! n"

function show_nat :: "nat \<Rightarrow> string" where
  "show_nat n =
     (if n < 10 then [digit_char n]
      else show_nat (n div 10) @ [digit_char (n mod 10)])"
  by pat_completeness auto
termination
  by (relation "measure id") auto

definition two_digits :: "nat \<Rightarrow> string" where
  "two_digits n = (if n < 10 then CHR ''0'' # show_nat n else show_nat n)"

definition py_strftime :: "pydate \<Rightarrow> string \<Rightarrow> error + string" where
  "py_strftime t fmt =
     (if fmt = ''%A, %d %B - %Y''
      then Inr (day_names ! weekday t @ '', '' @ two_digits (nat (day t)) @ '' ''
                @ month_names ! nat (month t - 1) @ '' - '' @ show_nat (nat (year t)))
      else Inl NotModelled)"

text \<open>\<^verbatim>\<open>arrow.get('YYYY-MM-DD').timestamp\<close>: seconds from 1970-01-01 to that day.\<close>

definition iso_date_timestamp :: "json \<Rightarrow> error + int" where
  "iso_date_timestamp j =
     (case j of
        JStr s \<Rightarrow>
          if length s = 10 \<and> s ! 4 = CHR ''-'' \<and> s ! 7 = CHR ''-''
             \<and> list_all is_digit (take 4 s @ take 2 (drop 5 s) @ drop 8 s)
          then
            (let y = int_of_digits (take 4 s);
                 m = int_of_digits (take 2 (drop 5 s));
                 d = int_of_digits (drop 8 s)
             in if 1 \<le> y \<and> 1 \<le> m \<and> m \<le> 12 \<and> 1 \<le> d \<and> d \<le> days_in_month y m
                then Inr ((ymd2ord \<lparr>year = y, month = m, day = d\<rparr>
                           - ymd2ord \<lparr>year = 1970, month = 1, day = 1\<rparr>) * 86400)
                else Inl ParserError)
          else Inl NotModelled
      | _ \<Rightarrow> Inl NotModelled)"

text \<open>\<^verbatim>\<open>str(x)\<close> for \<^verbatim>\<open>None\<close>, a \<^verbatim>\<open>bool\<close>, an \<^verbatim>\<open>int\<close> and a \<^verbatim>\<open>str\<close>.\<close>

definition scalar_str :: "json \<Rightarrow> error + string" where
  "scalar_str j =
     (case j of
        JNull \<Rightarrow> Inr ''None''
      | JBool b \<Rightarrow> Inr (if b then ''True'' else ''False'')
      | JInt n \<Rightarrow> Inr (if n < 0 then CHR ''-'' # show_nat (nat (- n)) else show_nat (nat n))
      | JStr s \<Rightarrow> Inr s
      | _ \<Rightarrow> Inl NotModelled)"

definition example_env :: env where
  "example_env =
     \<lparr>DOWNLOAD_BASE_URL = ''https://get.aosip.dev'',
      arrow_timestamp = iso_date_timestamp,
      py_str = scalar_str\<rparr>"

section \<open>Well-formed data and example documents\<close>

text \<open>A device record that \<^verbatim>\<open>get_devices\<close> accepts: it has a \<open>codename\<close> that can be
  a dictionary key, and a \<open>device\<close>.\<close>

definition wf_device :: "pydict \<Rightarrow> bool" where
  "wf_device d =
     (case map_of d ''codename'' of
        None \<Rightarrow> False
      | Some k \<Rightarrow> hashable k \<and> map_of d ''device'' \<noteq> None)"

text \<open>The two fields that the index route reads from a zip name.\<close>

definition zip_codename :: "string \<Rightarrow> string" where
  "zip_codename name = split_on (CHR ''-'') (fst (splitext name)) ! 3"

definition zip_date :: "string \<Rightarrow> string" where
  "zip_date name = split_on (CHR ''-'') (fst (splitext name)) ! 4"

definition mk_build :: "string \<Rightarrow> string \<Rightarrow> string \<Rightarrow> string \<Rightarrow> pydict" where
  "mk_build name ty built sha =
     [(''filename'', JStr name), (''type'', JStr ty), (''version'', JStr ''10''),
      (''date'', JStr built), (''sha256'', JStr sha), (''filepath'', JStr ''/builds/''),
      (''size'', JInt 1024)]"

definition gapps_jan5 :: pydict where
  "gapps_jan5 = mk_build ''AOSiP-10-Gapps-mido-20200105.zip'' ''gapps'' ''2020-01-05'' ''aa11''"

definition official_jan1 :: pydict where
  "official_jan1 =
     mk_build ''AOSiP-10-Official-mido-20200101.zip'' ''official'' ''2020-01-01'' ''bb22''"

definition official_mar1 :: pydict where
  "official_mar1 =
     mk_build ''AOSiP-10-Official-mido-20200301.zip'' ''official'' ''2020-03-01'' ''cc33''
     @ [(''fastboot_images'', JBool True), (''boot_image'', JBool True)]"

definition gapps_dec25 :: pydict where
  "gapps_dec25 = mk_build ''AOSiP-10-Gapps-mido-20191225.zip'' ''gapps'' ''2019-12-25'' ''ff66''"

definition beta_feb2 :: pydict where
  "beta_feb2 = mk_build ''AOSiP-10-Beta-whyred-20200202.zip'' ''beta'' ''2020-02-02'' ''dd44''"

definition official_apr10 :: pydict where
  "official_apr10 =
     mk_build ''AOSiP-10-Official-beryllium-20200410.zip'' ''official'' ''2020-04-10'' ''ee55''
     @ [(''fastboot_images'', JBool True), (''boot_image'', JBool True)]"

definition example_builds :: manifest where
  "example_builds =
     [(''mido'', [gapps_jan5, official_jan1, official_mar1, gapps_dec25]),
      (''whyred'', [beta_feb2]),
      (''beryllium'', [official_apr10])]"

definition example_devices :: directory where
  "example_devices =
     [[(''codename'', JStr ''mido''), (''device'', JStr ''Redmi Note 4''),
       (''maintainer'', JStr ''someone'')],
      [(''codename'', JStr ''tissot''), (''device'', JStr ''Mi A1'')]]"

text \<open>The zip names of the example manifest, in the order of \<^verbatim>\<open>get_zips\<close>, and a
  manifest whose only zip name has no date field.\<close>

definition example_names :: "string list" where
  "example_names =
     [''AOSiP-10-Gapps-mido-20200105.zip'', ''AOSiP-10-Official-mido-20200101.zip'',
      ''AOSiP-10-Official-mido-20200301.zip'', ''AOSiP-10-Gapps-mido-20191225.zip'',
      ''AOSiP-10-Beta-whyred-20200202.zip'', ''AOSiP-10-Official-beryllium-20200410.zip'']"

definition no_date_builds :: manifest where
  "no_date_builds =
     [(''mido'', [[(''filename'', JStr ''AOSiP-10-mido.zip''), (''type'', JStr ''official'')]])]"

text \<open>An upstream that serves a changelog for \<open>mido\<close> only (not even the global
  one) and counts the requests it has answered.\<close>

definition example_upstream :: "nat \<Rightarrow> string \<Rightarrow> http_response \<times> nat" where
  "example_upstream n url =
     (if url = changelog_base_url @ ''/mido/changelog''
      then \<lparr>status_code = 200, body_text = ''fix wifi'' @ [CHR 0x0A] @ ''fix camera''\<rparr>
      else \<lparr>status_code = 404, body_text = ''404: Not Found''\<rparr>,
      Suc n)"

section \<open>Facts about the primitives\<close>

lemma key_eq_JStr [simp]: "key_eq k (JStr s) = (k = JStr s)"
  by (cases k) simp_all

lemma key_in_JStr: "key_in (JStr s) d = (JStr s \<in> fst ` set d)"
  by (induction d) (auto simp: key_in_def)

lemma keys_key_setitem:
  "JStr s \<in> fst ` set (key_setitem k v d) \<longleftrightarrow> JStr s \<in> fst ` set d \<or> k = JStr s"
proof (induction d)
  case Nil
  show ?case by auto
next
  case (Cons p d)
  obtain k' v' where p: "p = (k', v')" by (cases p)
  show ?case
  proof (cases "key_eq k' k")
    case True
    have "k = JStr s \<Longrightarrow> k' = JStr s" using True by simp
    then show ?thesis using True p by auto
  next
    case False
    then show ?thesis using p Cons.IH by auto
  qed
qed

subsection \<open>The device directory\<close>

lemma get_devices_from_ok:
  "list_all wf_device data \<Longrightarrow>
   \<exists>devs. get_devices_from data acc = Inr devs \<and>
     (\<forall>s. JStr s \<in> fst ` set devs \<longleftrightarrow>
        JStr s \<in> fst ` set acc \<or> (\<exists>d\<in>set data. map_of d ''codename'' = Some (JStr s)))"
proof (induction data arbitrary: acc)
  case Nil
  then show ?case by simp
next
  case (Cons d ds)
  from Cons.prems have d: "wf_device d" and rest: "list_all wf_device ds"
    by simp_all
  from d obtain k v where k: "map_of d ''codename'' = Some k" "hashable k"
    and v: "map_of d ''device'' = Some v"
    by (auto simp: wf_device_def split: option.splits)
  from Cons.IH [OF rest, of "key_setitem k v acc"] obtain devs where
    devs: "get_devices_from ds (key_setitem k v acc) = Inr devs"
    and keys: "\<forall>s. JStr s \<in> fst ` set devs \<longleftrightarrow>
        JStr s \<in> fst ` set (key_setitem k v acc) \<or>
        (\<exists>d\<in>set ds. map_of d ''codename'' = Some (JStr s))"
    by blast
  have "get_devices_from (d # ds) acc = Inr devs"
    using k v devs by (simp add: getitem_def)
  moreover have "JStr s \<in> fst ` set devs \<longleftrightarrow>
        JStr s \<in> fst ` set acc \<or> (\<exists>d\<in>set (d # ds). map_of d ''codename'' = Some (JStr s))" for s
    using keys k(1) by (auto simp: keys_key_setitem)
  ultimately show ?case by blast
qed

lemma get_devices_ok:
  assumes "list_all wf_device data"
  shows "\<exists>devs. get_devices data = Inr devs \<and>
     (\<forall>s. key_in (JStr s) devs \<longleftrightarrow> (\<exists>d\<in>set data. map_of d ''codename'' = Some (JStr s)))"
  using get_devices_from_ok [OF assms, of "[]"] by (auto simp: get_devices_def key_in_JStr)

lemma example_devices_wf: "list_all wf_device example_devices"
  by (simp add: example_devices_def wf_device_def)

subsection \<open>The scan of \<^verbatim>\<open>get_latest\<close>\<close>

lemma get_latest_loop_first:
  "\<forall>x\<in>set pre. \<exists>t. map_of x ''type'' = Some t \<and> t \<noteq> JStr romtype \<Longrightarrow>
   map_of b ''type'' = Some (JStr romtype) \<Longrightarrow>
   get_latest_loop (pre @ b # post) romtype = Inr b"
  by (induction pre) (auto simp: getitem_def)

lemma get_latest_loop_none:
  "\<forall>x\<in>set builds. \<exists>t. map_of x ''type'' = Some t \<and> t \<noteq> JStr romtype \<Longrightarrow>
   get_latest_loop builds romtype = Inr []"
  by (induction builds) (auto simp: getitem_def)

section \<open>The OTA route\<close>

text \<open>
  Claim C1. Let the device directory be well formed and hold a record whose
  codename is the requested device, and let the manifest list the builds
  \<open>pre @ b # post\<close> for that device, where every build of \<open>pre\<close> has a type other
  than \<open>romtype\<close> and \<open>b\<close> has type \<open>romtype\<close>, so that \<open>b\<close> is the first match in
  manifest order, whatever follows in \<open>post\<close> and whatever the dates are. If \<open>b\<close>
  has the fields of a build record (string \<open>filepath\<close> and \<open>filename\<close>) and the date
  library turns its \<open>date\<close> into the time stamp \<open>ts\<close>, then the handler of
  \<^verbatim>\<open>/<device>/<romtype>\<close> answers the JSON object \<^verbatim>\<open>{"response": [r]}\<close> with the single
  element \<open>r\<close> built from \<open>b\<close>: \<open>id\<close> is its \<open>sha256\<close>, \<open>url\<close> is the plain concatenation
  of \<open>DOWNLOAD_BASE_URL\<close>, \<open>filepath\<close> and \<open>filename\<close>, \<open>romtype\<close> its type, \<open>datetime\<close>
  is \<open>ts\<close>, and \<open>version\<close>, \<open>filename\<close> and \<open>size\<close> are copied.
\<close>

theorem ota_first_match:
  assumes dir: "list_all wf_device data"
    and known: "\<exists>d\<in>set data. map_of d ''codename'' = Some (JStr dev)"
    and builds: "map_of builds_json dev = Some (pre @ b # post)"
    and pre: "\<forall>x\<in>set pre. \<exists>t. map_of x ''type'' = Some t \<and> t \<noteq> JStr romtype"
    and ty: "map_of b ''type'' = Some (JStr romtype)"
    and sha: "map_of b ''sha256'' = Some sha"
    and fp: "map_of b ''filepath'' = Some (JStr fp)"
    and fn: "map_of b ''filename'' = Some (JStr fn)"
    and dt: "map_of b ''date'' = Some dt"
    and ts: "arrow_timestamp e dt = Inr ts"
    and ver: "map_of b ''version'' = Some ver"
    and sz: "map_of b ''size'' = Some sz"
  shows "ota e data builds_json dev romtype =
     Inr (Jsonify (JDict [(''response'', JList [JDict
       [(''id'', sha),
        (''url'', JStr (DOWNLOAD_BASE_URL e @ fp @ fn)),
        (''romtype'', JStr romtype),
        (''datetime'', JInt ts),
        (''version'', ver),
        (''filename'', JStr fn),
        (''size'', sz)]])]))"
proof -
  from get_devices_ok [OF dir] known obtain devs where
    devs: "get_devices data = Inr devs" "key_in (JStr dev) devs"
    by blast
  have rom: "get_latest data builds_json dev romtype = Inr b"
    using devs builds get_latest_loop_first [OF pre ty, of post]
    by (simp add: get_latest_def)
  have "b \<noteq> []" using ty by auto
  then show ?thesis
    using rom ty sha fp fn dt ts ver sz
    by (simp add: ota_def getitem_def format_arg_def)
qed

text \<open>On the example documents the device \<open>mido\<close> has a gapps build, then the
  official build of 1 January 2020, then the official build of 1 March 2020, then
  another gapps build: the answer for \<open>official\<close> is the January build, the first
  in the list and not the most recent.\<close>

theorem ota_first_match_witness:
  "ota example_env example_devices example_builds ''mido'' ''official'' =
     Inr (Jsonify (JDict [(''response'', JList [JDict
       [(''id'', JStr ''bb22''),
        (''url'', JStr ''https://get.aosip.dev/builds/AOSiP-10-Official-mido-20200101.zip''),
        (''romtype'', JStr ''official''),
        (''datetime'', JInt 1577836800),
        (''version'', JStr ''10''),
        (''filename'', JStr ''AOSiP-10-Official-mido-20200101.zip''),
        (''size'', JInt 1024)]])]))"
proof -
  have known: "\<exists>d\<in>set example_devices. map_of d ''codename'' = Some (JStr ''mido'')"
    by (simp add: example_devices_def)
  have builds: "map_of example_builds ''mido'' = Some ([gapps_jan5] @ official_jan1 # [official_mar1, gapps_dec25])"
    by (simp add: example_builds_def)
  have pre: "\<forall>x\<in>set [gapps_jan5]. \<exists>t. map_of x ''type'' = Some t \<and> t \<noteq> JStr ''official''"
    by (simp add: gapps_jan5_def mk_build_def)
  have ts: "arrow_timestamp example_env (JStr ''2020-01-01'') = Inr 1577836800"
    by (simp add: example_env_def iso_date_timestamp_def is_digit_def int_of_digits_def
        digit_val_def ymd2ord_def days_before_year_def days_before_month_def
        days_in_month_def is_leap_def upto.simps)
  show ?thesis
    using ota_first_match [OF example_devices_wf known builds pre _ _ _ _ _ ts,
        of "JStr ''bb22''" "''/builds/''" "''AOSiP-10-Official-mido-20200101.zip''"
           "JStr ''10''" "JInt 1024"]
    by (simp add: official_jan1_def mk_build_def example_env_def)
qed

text \<open>
  Claim C2. With a well-formed device directory, if no record of the directory
  has the requested codename, or the manifest lists builds for the device and
  every one of them has a type other than \<open>romtype\<close>, the handler of
  \<^verbatim>\<open>/<device>/<romtype>\<close> answers exactly \<^verbatim>\<open>{"response": []}\<close>, as a normal response.
\<close>

theorem ota_empty_response:
  assumes dir: "list_all wf_device data"
    and none: "(\<forall>d\<in>set data. map_of d ''codename'' \<noteq> Some (JStr dev)) \<or>
       (\<exists>builds. map_of builds_json dev = Some builds \<and>
          (\<forall>x\<in>set builds. \<exists>t. map_of x ''type'' = Some t \<and> t \<noteq> JStr romtype))"
  shows "ota e data builds_json dev romtype = Inr (Jsonify (JDict [(''response'', JList [])]))"
proof -
  from get_devices_ok [OF dir] obtain devs where
    devs: "get_devices data = Inr devs"
    and keys: "\<forall>s. key_in (JStr s) devs \<longleftrightarrow> (\<exists>d\<in>set data. map_of d ''codename'' = Some (JStr s))"
    by blast
  have "get_latest data builds_json dev romtype = Inr []"
  proof (cases "key_in (JStr dev) devs")
    case False
    then show ?thesis using devs by (simp add: get_latest_def)
  next
    case True
    with keys none obtain builds where "map_of builds_json dev = Some builds"
      and "\<forall>x\<in>set builds. \<exists>t. map_of x ''type'' = Some t \<and> t \<noteq> JStr romtype"
      by blast
    then show ?thesis
      using devs True get_latest_loop_none [of builds romtype] by (simp add: get_latest_def)
  qed
  then show ?thesis by (simp add: ota_def)
qed

text \<open>Both cases on the example documents: \<open>whyred\<close> is not in the directory, and
  \<open>mido\<close> is but has no build of type \<open>beta\<close>.\<close>

theorem ota_empty_response_witness:
  "ota example_env example_devices example_builds ''whyred'' ''beta'' =
     Inr (Jsonify (JDict [(''response'', JList [])])) \<and>
   ota example_env example_devices example_builds ''mido'' ''beta'' =
     Inr (Jsonify (JDict [(''response'', JList [])]))"
proof -
  have unknown: "(\<forall>d\<in>set example_devices. map_of d ''codename'' \<noteq> Some (JStr ''whyred'')) \<or>
       (\<exists>builds. map_of example_builds ''whyred'' = Some builds \<and>
          (\<forall>x\<in>set builds. \<exists>t. map_of x ''type'' = Some t \<and> t \<noteq> JStr ''beta''))"
    by (simp add: example_devices_def)
  have no_beta: "(\<forall>d\<in>set example_devices. map_of d ''codename'' \<noteq> Some (JStr ''mido'')) \<or>
       (\<exists>builds. map_of example_builds ''mido'' = Some builds \<and>
          (\<forall>x\<in>set builds. \<exists>t. map_of x ''type'' = Some t \<and> t \<noteq> JStr ''beta''))"
    by (simp add: example_builds_def gapps_jan5_def official_jan1_def official_mar1_def
        gapps_dec25_def mk_build_def)
  show ?thesis
    using ota_empty_response [OF example_devices_wf unknown]
      ota_empty_response [OF example_devices_wf no_beta]
    by simp
qed

text \<open>
  Claim C3. With a well-formed device directory that holds a record for the
  requested codename, and a manifest without that codename as a key, the lookup
  of \<^verbatim>\<open>get_latest\<close> in the manifest raises \<^verbatim>\<open>KeyError\<close>, and the handler of
  \<^verbatim>\<open>/<device>/<romtype>\<close> ends in that exception; it does not answer
  \<^verbatim>\<open>{"response": []}\<close>.
\<close>

theorem ota_key_error:
  assumes dir: "list_all wf_device data"
    and known: "\<exists>d\<in>set data. map_of d ''codename'' = Some (JStr dev)"
    and absent: "map_of builds_json dev = None"
  shows "get_latest data builds_json dev romtype = Inl KeyError \<and>
         ota e data builds_json dev romtype = Inl KeyError \<and>
         ota e data builds_json dev romtype \<noteq> Inr (Jsonify (JDict [(''response'', JList [])]))"
proof -
  from get_devices_ok [OF dir] known obtain devs where
    "get_devices data = Inr devs" "key_in (JStr dev) devs"
    by blast
  then have "get_latest data builds_json dev romtype = Inl KeyError"
    using absent by (simp add: get_latest_def)
  then show ?thesis by (simp add: ota_def)
qed

text \<open>The device \<open>tissot\<close> of the example directory has no entry in the manifest.\<close>

theorem ota_key_error_witness:
  "ota example_env example_devices example_builds ''tissot'' ''official'' = Inl KeyError"
proof -
  have known: "\<exists>d\<in>set example_devices. map_of d ''codename'' = Some (JStr ''tissot'')"
    by (simp add: example_devices_def)
  have absent: "map_of example_builds ''tissot'' = None"
    by (simp add: example_builds_def)
  show ?thesis
    using ota_key_error [OF example_devices_wf known absent] by simp
qed

section \<open>The device page\<close>

lemma map_of_setitem: "map_of (setitem k v d) = (map_of d)(k \<mapsto> v)"
  by (induction d) (auto simp: fun_eq_iff)

lemma setitem_not_Nil [simp]: "setitem k v d \<noteq> []"
  by (cases d) (auto split: if_splits)

lemma allowed_not_suffixed:
  "t \<in> set ALLOWED_BUILDTYPES \<Longrightarrow> t' \<in> set ALLOWED_BUILDTYPES \<Longrightarrow>
   t \<noteq> t' @ ''-img'' \<and> t \<noteq> t' @ ''-boot''"
  by (auto simp: ALLOWED_BUILDTYPES_def)

lemma record_build_allowed:
  assumes "dict_get build ''type'' = JStr t" and "t \<in> set ALLOWED_BUILDTYPES"
    and "dict_get build ''filename'' = JStr f"
  shows "record_build files build =
     Inr ((if truthy (dict_get build ''boot_image'')
           then setitem (t @ ''-boot'') (JStr (replace ''.zip'' ''-boot.img'' f)) else id)
          ((if truthy (dict_get build ''fastboot_images'')
            then setitem (t @ ''-img'') (JStr (replace ''.zip'' ''-img.zip'' f)) else id)
           (setitem t (JStr f) files)))"
  using assms by (simp add: record_build_def Let_def)

lemma record_build_skip:
  assumes "\<forall>t\<in>set ALLOWED_BUILDTYPES. dict_get build ''type'' \<noteq> JStr t"
  shows "record_build files build = Inr files"
  using assms by (auto simp: record_build_def split: json.splits)

lemma find_device_ok:
  "list_all wf_device data \<Longrightarrow> \<exists>r. find_device data target = Inr r"
  by (induction data) (auto simp: wf_device_def getitem_def split: option.splits)

lemma record_builds_last:
  assumes "t \<in> set ALLOWED_BUILDTYPES"
  shows "\<forall>x\<in>set builds. \<exists>g. dict_get x ''filename'' = JStr g \<Longrightarrow>
   \<exists>files'. record_builds builds files = Inr files' \<and>
     map_of files' t =
       (case filter (\<lambda>b. dict_get b ''type'' = JStr t) builds of
          [] \<Rightarrow> map_of files t
        | m # ms \<Rightarrow> Some (dict_get (last (m # ms)) ''filename''))"
proof (induction builds arbitrary: files)
  case Nil
  then show ?case by simp
next
  case (Cons b bs)
  from Cons.prems obtain f where f: "dict_get b ''filename'' = JStr f" by auto
  have step: "\<exists>files1. record_build files b = Inr files1 \<and>
      map_of files1 t = (if dict_get b ''type'' = JStr t then Some (JStr f) else map_of files t)"
  proof (cases "\<exists>t'\<in>set ALLOWED_BUILDTYPES. dict_get b ''type'' = JStr t'")
    case True
    then obtain t' where t': "t' \<in> set ALLOWED_BUILDTYPES" "dict_get b ''type'' = JStr t'"
      by blast
    show ?thesis
      using allowed_not_suffixed [OF assms t'(1)] t'(2)
      by (auto simp: record_build_allowed [OF t'(2) t'(1) f] map_of_setitem)
  next
    case False
    then show ?thesis using assms by (auto simp: record_build_skip)
  qed
  then obtain files1 where files1: "record_build files b = Inr files1"
    "map_of files1 t = (if dict_get b ''type'' = JStr t then Some (JStr f) else map_of files t)"
    by blast
  from Cons.prems have "\<forall>x\<in>set bs. \<exists>g. dict_get x ''filename'' = JStr g" by simp
  from Cons.IH [OF this, of files1] obtain files' where
    files': "record_builds bs files1 = Inr files'"
    "map_of files' t =
       (case filter (\<lambda>b. dict_get b ''type'' = JStr t) bs of
          [] \<Rightarrow> map_of files1 t
        | m # ms \<Rightarrow> Some (dict_get (last (m # ms)) ''filename''))"
    by blast
  have "record_builds (b # bs) files = Inr files'"
    using files1(1) files'(1) by simp
  moreover have "map_of files' t =
       (case filter (\<lambda>b. dict_get b ''type'' = JStr t) (b # bs) of
          [] \<Rightarrow> map_of files t
        | m # ms \<Rightarrow> Some (dict_get (last (m # ms)) ''filename''))"
    using files'(2) files1(2) f by (auto split: list.splits)
  ultimately show ?case by blast
qed


lemma record_builds_skip:
  "\<forall>b\<in>set builds. \<forall>t\<in>set ALLOWED_BUILDTYPES. dict_get b ''type'' \<noteq> JStr t \<Longrightarrow>
   record_builds builds files = Inr files"
  by (induction builds) (simp_all add: record_build_skip)

lemma record_builds_keys:
  "\<forall>x\<in>set builds. \<exists>g. dict_get x ''filename'' = JStr g \<Longrightarrow>
   \<exists>files'. record_builds builds files = Inr files' \<and>
     dom (map_of files) \<subseteq> dom (map_of files') \<and>
     (\<forall>b\<in>set builds. \<forall>t\<in>set ALLOWED_BUILDTYPES. dict_get b ''type'' = JStr t \<longrightarrow>
        t \<in> dom (map_of files') \<and>
        (truthy (dict_get b ''fastboot_images'') \<longrightarrow> t @ ''-img'' \<in> dom (map_of files')) \<and>
        (truthy (dict_get b ''boot_image'') \<longrightarrow> t @ ''-boot'' \<in> dom (map_of files')))"
proof (induction builds arbitrary: files)
  case Nil
  then show ?case by simp
next
  case (Cons b bs)
  from Cons.prems obtain f where f: "dict_get b ''filename'' = JStr f" by auto
  have step: "\<exists>files1. record_build files b = Inr files1 \<and>
      dom (map_of files) \<subseteq> dom (map_of files1) \<and>
      (\<forall>t\<in>set ALLOWED_BUILDTYPES. dict_get b ''type'' = JStr t \<longrightarrow>
        t \<in> dom (map_of files1) \<and>
        (truthy (dict_get b ''fastboot_images'') \<longrightarrow> t @ ''-img'' \<in> dom (map_of files1)) \<and>
        (truthy (dict_get b ''boot_image'') \<longrightarrow> t @ ''-boot'' \<in> dom (map_of files1)))"
  proof (cases "\<exists>t'\<in>set ALLOWED_BUILDTYPES. dict_get b ''type'' = JStr t'")
    case True
    then obtain t' where t': "t' \<in> set ALLOWED_BUILDTYPES" "dict_get b ''type'' = JStr t'"
      by blast
    show ?thesis
      using t'(2) by (auto simp: record_build_allowed [OF t'(2) t'(1) f] map_of_setitem)
  next
    case False
    then show ?thesis by (auto simp: record_build_skip)
  qed
  then obtain files1 where files1: "record_build files b = Inr files1"
    "dom (map_of files) \<subseteq> dom (map_of files1)"
    "\<forall>t\<in>set ALLOWED_BUILDTYPES. dict_get b ''type'' = JStr t \<longrightarrow>
        t \<in> dom (map_of files1) \<and>
        (truthy (dict_get b ''fastboot_images'') \<longrightarrow> t @ ''-img'' \<in> dom (map_of files1)) \<and>
        (truthy (dict_get b ''boot_image'') \<longrightarrow> t @ ''-boot'' \<in> dom (map_of files1))"
    by blast
  from Cons.prems have "\<forall>x\<in>set bs. \<exists>g. dict_get x ''filename'' = JStr g" by simp
  from Cons.IH [OF this, of files1] obtain files' where
    files': "record_builds bs files1 = Inr files'"
    "dom (map_of files1) \<subseteq> dom (map_of files')"
    "\<forall>b\<in>set bs. \<forall>t\<in>set ALLOWED_BUILDTYPES. dict_get b ''type'' = JStr t \<longrightarrow>
        t \<in> dom (map_of files') \<and>
        (truthy (dict_get b ''fastboot_images'') \<longrightarrow> t @ ''-img'' \<in> dom (map_of files')) \<and>
        (truthy (dict_get b ''boot_image'') \<longrightarrow> t @ ''-boot'' \<in> dom (map_of files'))"
    by blast
  have "record_builds (b # bs) files = Inr files'"
    using files1(1) files'(1) by simp
  moreover have "dom (map_of files) \<subseteq> dom (map_of files')"
    using files1(2) files'(2) by blast
  moreover have "\<forall>b\<in>set (b # bs). \<forall>t\<in>set ALLOWED_BUILDTYPES. dict_get b ''type'' = JStr t \<longrightarrow>
        t \<in> dom (map_of files') \<and>
        (truthy (dict_get b ''fastboot_images'') \<longrightarrow> t @ ''-img'' \<in> dom (map_of files')) \<and>
        (truthy (dict_get b ''boot_image'') \<longrightarrow> t @ ''-boot'' \<in> dom (map_of files'))"
    using files1(3) files'(2,3) by (simp add: subset_iff)
  ultimately show ?case by blast
qed

lemma latest_device_page:
  assumes "map_of builds_json target = Some builds"
    and "record_builds builds [] = Inr files" and "files \<noteq> []"
    and "find_device data target = Inr (mdl, url, who)"
  shows "latest_device data builds_json target =
     Inr (Render_device \<lparr>available_files = files, device = target,
            model = mdl, xda = url, maintainer = who\<rparr>)"
  using assms by (simp add: latest_device_def)

text \<open>
  Claim C4. Let \<open>build\<close> have a type \<open>t\<close> of the allow-list and a string \<open>filename\<close>
  \<open>f\<close>. (1) Whatever the available-files map holds when the loop of the handler
  of \<^verbatim>\<open>/<target_device>\<close> reaches \<open>build\<close>, the loop body succeeds and leaves \<open>f\<close>
  under key \<open>t\<close>; if \<open>fastboot_images\<close> is set it leaves \<open>f\<close> with \<^verbatim>\<open>.zip\<close> replaced by
  \<^verbatim>\<open>-img.zip\<close> under \<open>t @ ''-img''\<close>, and if \<open>boot_image\<close> is set it leaves \<open>f\<close> with
  \<^verbatim>\<open>.zip\<close> replaced by \<^verbatim>\<open>-boot.img\<close> under \<open>t @ ''-boot''\<close>. (2) When \<open>build\<close> is one of
  the builds that the manifest lists for the device, all with string filenames,
  the handler renders the device page, and these keys are keys of the page's
  map. (3) When \<open>build\<close> is the only build of the device and has both flags set,
  the page's map is exactly the three entries \<open>t\<close>, \<open>t @ ''-img''\<close>, \<open>t @ ''-boot''\<close>.
\<close>

theorem latest_device_records:
  assumes ty: "dict_get build ''type'' = JStr t"
    and allowed: "t \<in> set ALLOWED_BUILDTYPES"
    and fn: "dict_get build ''filename'' = JStr f"
  shows
   "(\<exists>files'. record_build files build = Inr files' \<and>
       map_of files' t = Some (JStr f) \<and>
       (truthy (dict_get build ''fastboot_images'') \<longrightarrow>
          map_of files' (t @ ''-img'') = Some (JStr (replace ''.zip'' ''-img.zip'' f))) \<and>
       (truthy (dict_get build ''boot_image'') \<longrightarrow>
          map_of files' (t @ ''-boot'') = Some (JStr (replace ''.zip'' ''-boot.img'' f)))) \<and>
    (map_of builds_json target = Some builds \<and> build \<in> set builds \<and>
       (\<forall>x\<in>set builds. \<exists>g. dict_get x ''filename'' = JStr g) \<and>
       find_device data target = Inr (mdl, url, who) \<longrightarrow>
       (\<exists>files'. latest_device data builds_json target =
            Inr (Render_device \<lparr>available_files = files', device = target,
                   model = mdl, xda = url, maintainer = who\<rparr>) \<and>
          t \<in> dom (map_of files') \<and>
          (truthy (dict_get build ''fastboot_images'') \<longrightarrow> t @ ''-img'' \<in> dom (map_of files')) \<and>
          (truthy (dict_get build ''boot_image'') \<longrightarrow> t @ ''-boot'' \<in> dom (map_of files')))) \<and>
    (map_of builds_json target = Some [build] \<and>
       truthy (dict_get build ''fastboot_images'') \<and> truthy (dict_get build ''boot_image'') \<and>
       find_device data target = Inr (mdl, url, who) \<longrightarrow>
       latest_device data builds_json target =
         Inr (Render_device
           \<lparr>available_files =
              [(t, JStr f),
               (t @ ''-img'', JStr (replace ''.zip'' ''-img.zip'' f)),
               (t @ ''-boot'', JStr (replace ''.zip'' ''-boot.img'' f))],
            device = target, model = mdl, xda = url, maintainer = who\<rparr>))"
proof (intro conjI impI)
  show "\<exists>files'. record_build files build = Inr files' \<and>
       map_of files' t = Some (JStr f) \<and>
       (truthy (dict_get build ''fastboot_images'') \<longrightarrow>
          map_of files' (t @ ''-img'') = Some (JStr (replace ''.zip'' ''-img.zip'' f))) \<and>
       (truthy (dict_get build ''boot_image'') \<longrightarrow>
          map_of files' (t @ ''-boot'') = Some (JStr (replace ''.zip'' ''-boot.img'' f)))"
    by (simp add: record_build_allowed [OF ty allowed fn] map_of_setitem)
next
  assume a: "map_of builds_json target = Some builds \<and> build \<in> set builds \<and>
       (\<forall>x\<in>set builds. \<exists>g. dict_get x ''filename'' = JStr g) \<and>
       find_device data target = Inr (mdl, url, who)"
  then have names: "\<forall>x\<in>set builds. \<exists>g. dict_get x ''filename'' = JStr g" by blast
  from record_builds_keys [OF names, of "[]"] obtain files' where
    files': "record_builds builds [] = Inr files'"
    "\<forall>b\<in>set builds. \<forall>t\<in>set ALLOWED_BUILDTYPES. dict_get b ''type'' = JStr t \<longrightarrow>
        t \<in> dom (map_of files') \<and>
        (truthy (dict_get b ''fastboot_images'') \<longrightarrow> t @ ''-img'' \<in> dom (map_of files')) \<and>
        (truthy (dict_get b ''boot_image'') \<longrightarrow> t @ ''-boot'' \<in> dom (map_of files'))"
    by blast
  from files'(2) a ty allowed have keys: "t \<in> dom (map_of files')"
    "truthy (dict_get build ''fastboot_images'') \<longrightarrow> t @ ''-img'' \<in> dom (map_of files')"
    "truthy (dict_get build ''boot_image'') \<longrightarrow> t @ ''-boot'' \<in> dom (map_of files')"
    by blast+
  from keys(1) have "files' \<noteq> []" by auto
  with a files'(1) have "latest_device data builds_json target =
      Inr (Render_device \<lparr>available_files = files', device = target,
             model = mdl, xda = url, maintainer = who\<rparr>)"
    by (simp add: latest_device_page)
  with keys show "\<exists>files'. latest_device data builds_json target =
            Inr (Render_device \<lparr>available_files = files', device = target,
                   model = mdl, xda = url, maintainer = who\<rparr>) \<and>
          t \<in> dom (map_of files') \<and>
          (truthy (dict_get build ''fastboot_images'') \<longrightarrow> t @ ''-img'' \<in> dom (map_of files')) \<and>
          (truthy (dict_get build ''boot_image'') \<longrightarrow> t @ ''-boot'' \<in> dom (map_of files'))"
    by blast
next
  assume a: "map_of builds_json target = Some [build] \<and>
       truthy (dict_get build ''fastboot_images'') \<and> truthy (dict_get build ''boot_image'') \<and>
       find_device data target = Inr (mdl, url, who)"
  have "record_builds [build] [] =
      Inr [(t, JStr f),
           (t @ ''-img'', JStr (replace ''.zip'' ''-img.zip'' f)),
           (t @ ''-boot'', JStr (replace ''.zip'' ''-boot.img'' f))]"
    using a by (simp add: record_build_allowed [OF ty allowed fn])
  with a show "latest_device data builds_json target =
         Inr (Render_device
           \<lparr>available_files =
              [(t, JStr f),
               (t @ ''-img'', JStr (replace ''.zip'' ''-img.zip'' f)),
               (t @ ''-boot'', JStr (replace ''.zip'' ''-boot.img'' f))],
            device = target, model = mdl, xda = url, maintainer = who\<rparr>)"
    by (simp add: latest_device_page)
qed


text \<open>The device \<open>beryllium\<close> of the example manifest has one official build with
  both flags: the keys are \<open>official\<close>, \<open>official-img\<close> and \<open>official-boot\<close>.\<close>

theorem latest_device_records_witness:
  "latest_device example_devices example_builds ''beryllium'' =
     Inr (Render_device
       \<lparr>available_files =
          [(''official'', JStr ''AOSiP-10-Official-beryllium-20200410.zip''),
           (''official-img'', JStr ''AOSiP-10-Official-beryllium-20200410-img.zip''),
           (''official-boot'', JStr ''AOSiP-10-Official-beryllium-20200410-boot.img'')],
        device = ''beryllium'', model = JStr ''beryllium'', xda = JNull, maintainer = JNull\<rparr>)"
proof -
  have ty: "dict_get official_apr10 ''type'' = JStr ''official''"
    by (simp add: official_apr10_def mk_build_def dict_get_def)
  have allowed: "''official'' \<in> set ALLOWED_BUILDTYPES"
    by (simp add: ALLOWED_BUILDTYPES_def)
  have fn: "dict_get official_apr10 ''filename'' = JStr ''AOSiP-10-Official-beryllium-20200410.zip''"
    by (simp add: official_apr10_def mk_build_def dict_get_def)
  have single: "map_of example_builds ''beryllium'' = Some [official_apr10] \<and>
       truthy (dict_get official_apr10 ''fastboot_images'') \<and>
       truthy (dict_get official_apr10 ''boot_image'') \<and>
       find_device example_devices ''beryllium'' = Inr (JStr ''beryllium'', JNull, JNull)"
    by (simp add: example_builds_def official_apr10_def mk_build_def dict_get_def
        example_devices_def getitem_def)
  from latest_device_records [OF ty allowed fn, of "[]" example_builds "''beryllium''" "[]"
      example_devices "JStr ''beryllium''" JNull JNull] single
  show ?thesis by simp
qed

text \<open>
  Claim C5, as amended. When the manifest lists the device and none of its builds
  has a type of the allow-list, the available-files map stays empty and the
  handler of \<^verbatim>\<open>/<target_device>\<close> does not render the device page (the page is
  rendered only for a non-empty map); it does not answer the "no build" message
  either. That the page is rendered with an empty map is false: for the device
  \<open>whyred\<close> of the example manifest the view function returns nothing.
\<close>

theorem latest_device_no_allowed_build:
  assumes "map_of builds_json target = Some builds"
    and "\<forall>b\<in>set builds. \<forall>t\<in>set ALLOWED_BUILDTYPES. dict_get b ''type'' \<noteq> JStr t"
  shows "record_builds builds [] = Inr [] \<and>
     (\<forall>page. latest_device data builds_json target \<noteq> Inr (Render_device page)) \<and>
     latest_device data builds_json target \<noteq> Inr (Plain (no_build_message target))"
proof -
  have "record_builds builds [] = Inr []"
    using assms(2) by (rule record_builds_skip)
  then show ?thesis
    using assms(1) by (auto simp: latest_device_def split: sum.splits)
qed

text \<open>The device \<open>whyred\<close> of the example manifest has a single build, of type
  \<open>beta\<close>.\<close>

theorem latest_device_no_allowed_build_witness:
  "record_builds [beta_feb2] [] = Inr [] \<and>
   latest_device example_devices example_builds ''whyred'' \<noteq>
     Inr (Render_device \<lparr>available_files = [], device = ''whyred'', model = JStr ''whyred'',
            xda = JNull, maintainer = JNull\<rparr>)"
proof -
  have listed: "map_of example_builds ''whyred'' = Some [beta_feb2]"
    by (simp add: example_builds_def)
  have other: "\<forall>b\<in>set [beta_feb2]. \<forall>t\<in>set ALLOWED_BUILDTYPES. dict_get b ''type'' \<noteq> JStr t"
    by (simp add: beta_feb2_def mk_build_def dict_get_def ALLOWED_BUILDTYPES_def)
  from latest_device_no_allowed_build [OF listed other, of example_devices]
  show ?thesis by blast
qed

text \<open>On that device the view function falls off its end and returns \<^verbatim>\<open>None\<close>; no
  page with an empty map is rendered.\<close>

theorem latest_device_empty_map_counterexample:
  "map_of example_builds ''whyred'' = Some [beta_feb2] \<and>
   dict_get beta_feb2 ''type'' = JStr ''beta'' \<and>
   ''beta'' \<notin> set ALLOWED_BUILDTYPES \<and>
   latest_device example_devices example_builds ''whyred'' = Inr Returned_None \<and>
   latest_device example_devices example_builds ''whyred'' \<noteq>
     Inr (Render_device \<lparr>available_files = [], device = ''whyred'', model = JStr ''whyred'',
            xda = JNull, maintainer = JNull\<rparr>)"
  by (simp add: example_builds_def beta_feb2_def mk_build_def dict_get_def
      ALLOWED_BUILDTYPES_def latest_device_def record_build_def example_devices_def
      getitem_def)

lemma get_latest_loop_filter:
  "\<forall>x\<in>set builds. map_of x ''type'' \<noteq> None \<Longrightarrow>
   get_latest_loop builds t =
     Inr (case filter (\<lambda>b. dict_get b ''type'' = JStr t) builds of [] \<Rightarrow> [] | m # ms \<Rightarrow> m)"
  by (induction builds) (auto simp: getitem_def dict_get_def)

text \<open>
  Claim C10. Let the manifest list \<open>builds\<close> for the device, all with string
  filenames, and let \<open>m # ms\<close> be the builds among them, in manifest order, whose
  type is the allow-listed type \<open>t\<close>. Then the handler of \<^verbatim>\<open>/<target_device>\<close>
  renders the device page, and the page's map holds under key \<open>t\<close> the filename of
  the last build of \<open>m # ms\<close>: later builds of a type overwrite the entry of
  earlier ones. The scan of the OTA route over the same builds (each with a
  \<open>type\<close>) returns \<open>m\<close>, the first of them.
\<close>

theorem latest_device_last_build:
  assumes listed: "map_of builds_json target = Some builds"
    and names: "\<forall>x\<in>set builds. \<exists>g. dict_get x ''filename'' = JStr g"
    and found: "find_device data target = Inr (mdl, url, who)"
    and allowed: "t \<in> set ALLOWED_BUILDTYPES"
    and several: "filter (\<lambda>b. dict_get b ''type'' = JStr t) builds = m # ms"
  shows "(\<exists>files. latest_device data builds_json target =
            Inr (Render_device \<lparr>available_files = files, device = target,
                   model = mdl, xda = url, maintainer = who\<rparr>) \<and>
          map_of files t = Some (dict_get (last (m # ms)) ''filename'')) \<and>
         ((\<forall>x\<in>set builds. map_of x ''type'' \<noteq> None) \<longrightarrow> get_latest_loop builds t = Inr m)"
proof (intro conjI impI)
  from record_builds_last [OF allowed names, of "[]"] several obtain files where
    files: "record_builds builds [] = Inr files"
    "map_of files t = Some (dict_get (last (m # ms)) ''filename'')"
    by auto
  from files(2) have "files \<noteq> []" by auto
  with listed files found show "\<exists>files. latest_device data builds_json target =
            Inr (Render_device \<lparr>available_files = files, device = target,
                   model = mdl, xda = url, maintainer = who\<rparr>) \<and>
          map_of files t = Some (dict_get (last (m # ms)) ''filename'')"
    by (auto simp: latest_device_page)
next
  assume "\<forall>x\<in>set builds. map_of x ''type'' \<noteq> None"
  then show "get_latest_loop builds t = Inr m"
    using several by (simp add: get_latest_loop_filter)
qed

text \<open>The device \<open>mido\<close> of the example manifest has the official builds of
  1 January and 1 March 2020, in that order: the device page offers the March
  build, the OTA scan returns the January build.\<close>

theorem latest_device_last_build_witness:
  "map_of (case latest_device example_devices example_builds ''mido'' of
             Inr (Render_device page) \<Rightarrow> available_files page
           | _ \<Rightarrow> []) ''official'' =
     Some (JStr ''AOSiP-10-Official-mido-20200301.zip'') \<and>
   get_latest_loop [gapps_jan5, official_jan1, official_mar1, gapps_dec25] ''official'' = Inr official_jan1"
proof -
  have listed: "map_of example_builds ''mido'' = Some [gapps_jan5, official_jan1, official_mar1, gapps_dec25]"
    by (simp add: example_builds_def)
  have names: "\<forall>x\<in>set [gapps_jan5, official_jan1, official_mar1, gapps_dec25].
      \<exists>g. dict_get x ''filename'' = JStr g"
    by (simp add: gapps_jan5_def official_jan1_def official_mar1_def gapps_dec25_def
        mk_build_def dict_get_def)
  have found: "find_device example_devices ''mido'' = Inr (JStr ''Redmi Note 4'', JNull, JStr ''someone'')"
    by (simp add: example_devices_def getitem_def dict_get_def)
  have allowed: "''official'' \<in> set ALLOWED_BUILDTYPES"
    by (simp add: ALLOWED_BUILDTYPES_def)
  have several: "filter (\<lambda>b. dict_get b ''type'' = JStr ''official'')
      [gapps_jan5, official_jan1, official_mar1, gapps_dec25] = official_jan1 # [official_mar1]"
    by (simp add: gapps_jan5_def official_jan1_def official_mar1_def gapps_dec25_def
        mk_build_def dict_get_def)
  have typed: "\<forall>x\<in>set [gapps_jan5, official_jan1, official_mar1, gapps_dec25]. map_of x ''type'' \<noteq> None"
    by (simp add: gapps_jan5_def official_jan1_def official_mar1_def gapps_dec25_def
        mk_build_def)
  have last: "dict_get (last (official_jan1 # [official_mar1])) ''filename'' =
      JStr ''AOSiP-10-Official-mido-20200301.zip''"
    by (simp add: official_mar1_def mk_build_def dict_get_def)
  from latest_device_last_build [OF listed names found allowed several] typed last
  show ?thesis by auto
qed

section \<open>The changelog of a device\<close>

lemma replace_char:
  "replace [c] new s = concat (map (\<lambda>x. if x = c then new else [x]) s)"
  by (induction s) simp_all

lemma global_changelog_url:
  "os_path_join changelog_base_url [''changelog''] =
     ''https://raw.githubusercontent.com/AOSiP-Devices/Updater-Stuff/master/changelog''"
  by (simp add: os_path_join_def join_step_def changelog_base_url_def)

text \<open>
  Claim C9. The handler of \<^verbatim>\<open>/changelog/<device>\<close> first requests the global
  changelog and keeps its body \<open>body_text global\<close> whatever its status is; then it
  requests the changelog of the device. If that second answer has a status other
  than 200, the result is the string \<^verbatim>\<open>Fetching changelog for <device> failed!\<close> and
  the global body is dropped. Otherwise the result is the global body, a newline
  and the device's body, with every newline replaced by \<^verbatim>\<open><br>\<close>. Nothing in either
  case depends on \<open>status_code global\<close>.
\<close>

theorem changelog_device_result:
  assumes g: "requests_get w
      ''https://raw.githubusercontent.com/AOSiP-Devices/Updater-Stuff/master/changelog'' =
        (global, w1)"
    and d: "requests_get w1 (os_path_join changelog_base_url [dev, ''changelog'']) = (resp, w2)"
  shows "(status_code resp \<noteq> 200 \<longrightarrow>
            changelog_device requests_get w dev =
              (Plain (''Fetching changelog for '' @ dev @ '' failed!''), w2)) \<and>
         (status_code resp = 200 \<longrightarrow>
            changelog_device requests_get w dev =
              (Plain (concat (map (\<lambda>c. if c = CHR 0x0A then ''<br>'' else [c])
                        (body_text global @ [CHR 0x0A] @ body_text resp))), w2))"
  using g d by (simp add: changelog_device_def global_changelog_url replace_char)

text \<open>With the example upstream the global request is answered 404: its body
  still opens the changelog of \<open>mido\<close>, and the failure for \<open>tissot\<close> is reported
  for the device's request only.\<close>

theorem changelog_device_result_witness:
  "changelog_device example_upstream 0 ''mido'' =
     (Plain ''404: Not Found<br>fix wifi<br>fix camera'', 2) \<and>
   changelog_device example_upstream 0 ''tissot'' =
     (Plain ''Fetching changelog for tissot failed!'', 2)"
proof -
  have g: "example_upstream 0
      ''https://raw.githubusercontent.com/AOSiP-Devices/Updater-Stuff/master/changelog'' =
        (\<lparr>status_code = 404, body_text = ''404: Not Found''\<rparr>, 1)"
    by (simp add: example_upstream_def changelog_base_url_def)
  have mido: "example_upstream 1 (os_path_join changelog_base_url [''mido'', ''changelog'']) =
        (\<lparr>status_code = 200, body_text = ''fix wifi'' @ [CHR 0x0A] @ ''fix camera''\<rparr>, 2)"
    by (simp add: example_upstream_def changelog_base_url_def os_path_join_def join_step_def)
  have tissot: "example_upstream 1 (os_path_join changelog_base_url [''tissot'', ''changelog'']) =
        (\<lparr>status_code = 404, body_text = ''404: Not Found''\<rparr>, 2)"
    by (simp add: example_upstream_def changelog_base_url_def os_path_join_def join_step_def)
  from changelog_device_result [OF g mido] changelog_device_result [OF g tissot]
  show ?thesis by simp
qed

section \<open>The index route\<close>

lemma split_on_not_Nil [simp]: "split_on c s \<noteq> []"
  by (induction s) (auto split: list.splits)

lemma length_split_on: "length (split_on c s) = Suc (length (filter ((=) c) s))"
  by (induction s) (auto split: list.splits)

lemma split_on_no_sep: "c \<notin> set a \<Longrightarrow> split_on c a = [a]"
  by (induction a) auto

lemma split_on_append_sep: "c \<notin> set a \<Longrightarrow> split_on c (a @ c # b) = a # split_on c b"
  by (induction a) auto

lemma length_split_on_take: "length (split_on c (take k s)) \<le> length (split_on c s)"
proof -
  have "length (filter ((=) c) (take k s)) \<le> length (filter ((=) c) (take k s @ drop k s))"
    unfolding filter_append length_append by simp
  then show ?thesis by (simp add: length_split_on)
qed

lemma takeWhile_rev_notin:
  "c \<notin> set b \<Longrightarrow>
   takeWhile (\<lambda>x. x \<noteq> c) (rev b @ ys) = rev b @ takeWhile (\<lambda>x. x \<noteq> c) ys"
  by (rule takeWhile_append2) auto

lemma rfind_last_occurrence: "c \<notin> set b \<Longrightarrow> rfind c (a @ c # b) = int (length a)"
  by (simp add: rfind_def takeWhile_rev_notin)

lemma rfind_append_notin: "c \<notin> set b \<Longrightarrow> rfind c (a @ b) = rfind c a"
  by (simp add: rfind_def takeWhile_rev_notin)

lemma length_takeWhile_less:
  "c \<in> set xs \<Longrightarrow> length (takeWhile (\<lambda>x. x \<noteq> c) xs) < length xs"
  by (induction xs) auto

lemma rfind_bounds: "- 1 \<le> rfind c s \<and> rfind c s < int (length s)"
proof (cases "c \<in> set s")
  case True
  then have "c \<in> set (rev s)" by simp
  then have "length (takeWhile (\<lambda>x. x \<noteq> c) (rev s)) < length (rev s)"
    by (rule length_takeWhile_less)
  then show ?thesis using True by (simp add: rfind_def)
next
  case False
  then show ?thesis by (simp add: rfind_def)
qed

lemma rfind_before_last: "s \<noteq> [] \<Longrightarrow> last s \<noteq> c \<Longrightarrow> rfind c s < int (length s) - 1"
proof -
  assume s: "s \<noteq> []" "last s \<noteq> c"
  then obtain y ys where rev: "rev s = y # ys" "y \<noteq> c"
    by (cases "rev s") (auto simp: last_rev [symmetric] simp del: last_rev)
  show ?thesis
  proof (cases "c \<in> set s")
    case True
    have "0 < length (takeWhile (\<lambda>x. x \<noteq> c) (rev s))"
      using rev by simp
    then show ?thesis using True by (simp add: rfind_def)
  next
    case False
    then show ?thesis using s(1) by (simp add: rfind_def)
  qed
qed

lemma splitext_take: "\<exists>k. fst (splitext p) = take k p"
proof (cases "fst (splitext p) = p")
  case True
  then have "fst (splitext p) = take (length p) p" by simp
  then show ?thesis by blast
next
  case False
  then have "fst (splitext p) = take (nat (rfind (CHR ''.'') p)) p"
    by (auto simp: splitext_def Let_def split: if_splits)
  then show ?thesis by blast
qed

lemma rfind_dot_zip: "rfind (CHR ''.'') (y @ ''.zip'') = int (length y)"
  using rfind_last_occurrence [of "CHR ''.''" "''zip''" y] by simp

lemma splitext_zip_cases:
  "fst (splitext (y @ ''.zip'')) = y \<or> fst (splitext (y @ ''.zip'')) = y @ ''.zip''"
  by (simp add: splitext_def Let_def rfind_dot_zip)

lemma splitext_zip:
  assumes "y \<noteq> []" and "last y \<noteq> CHR ''.''" and "last y \<noteq> CHR ''/''"
  shows "splitext (y @ ''.zip'') = (y, ''.zip'')"
proof -
  let ?p = "y @ ''.zip''"
  have sep: "rfind (CHR ''/'') ?p = rfind (CHR ''/'') y"
    by (rule rfind_append_notin) simp
  have lt: "rfind (CHR ''/'') y < int (length y) - 1"
    using assms by (simp add: rfind_before_last)
  have ge: "- 1 \<le> rfind (CHR ''/'') y" by (simp add: rfind_bounds)
  let ?i = "length y - 1"
  have i: "nat (rfind (CHR ''/'') y + 1) \<le> ?i" "?i < length y"
    using lt ge assms(1) by auto
  have "?p ! ?i = last y"
    using assms(1) by (simp add: nth_append last_conv_nth)
  then have "?p ! ?i \<noteq> CHR ''.''" using assms(2) by simp
  with i have ex: "list_ex (\<lambda>i. ?p ! i \<noteq> CHR ''.'')
      [nat (rfind (CHR ''/'') ?p + 1)..<nat (rfind (CHR ''.'') ?p)]"
    unfolding list_ex_iff sep rfind_dot_zip by (intro bexI [of _ ?i]) auto
  have "rfind (CHR ''/'') ?p < rfind (CHR ''.'') ?p"
    unfolding sep rfind_dot_zip using lt by simp
  with ex show ?thesis
    unfolding splitext_def Let_def by (simp add: rfind_dot_zip)
qed


lemma digit_chars:
  "is_digit ch \<Longrightarrow> ch \<noteq> CHR ''-'' \<and> ch \<noteq> CHR ''.'' \<and> ch \<noteq> CHR ''/''"
  by (auto simp: is_digit_def)

lemma well_formed_fields:
  assumes p1: "CHR ''-'' \<notin> set p1" and p2: "CHR ''-'' \<notin> set p2" and p3: "CHR ''-'' \<notin> set p3"
    and c: "CHR ''-'' \<notin> set c"
    and len: "length d = 8" and digits: "list_all is_digit d"
    and rest: "rest = [] \<or> hd rest = CHR ''-''"
  shows "\<exists>more. split_on (CHR ''-'')
      (fst (splitext (p1 @ ''-'' @ p2 @ ''-'' @ p3 @ ''-'' @ c @ ''-'' @ d @ rest @ ''.zip''))) =
        [p1, p2, p3, c, d] @ more"
proof -
  let ?x = "p1 @ ''-'' @ p2 @ ''-'' @ p3 @ ''-'' @ c @ ''-'' @ d"
  have d_ne: "d \<noteq> []" using len by auto
  have d_chars: "CHR ''-'' \<notin> set d" "last d \<noteq> CHR ''.''" "last d \<noteq> CHR ''/''"
    using digits d_ne digit_chars by (auto simp: list_all_iff dest: last_in_set)
  have split_x: "split_on (CHR ''-'') (?x @ tail) =
      [p1, p2, p3, c] @ split_on (CHR ''-'') (d @ tail)" for tail
    using p1 p2 p3 c by (simp add: split_on_append_sep)
  show ?thesis
  proof (cases "rest = []")
    case True
    have "splitext (?x @ ''.zip'') = (?x, ''.zip'')"
      using d_ne d_chars by (intro splitext_zip) simp_all
    then have root: "fst (splitext (?x @ rest @ ''.zip'')) = ?x @ []"
      using True by simp
    have "split_on (CHR ''-'') (?x @ []) = [p1, p2, p3, c] @ split_on (CHR ''-'') (d @ [])"
      by (rule split_x)
    then have "split_on (CHR ''-'') (fst (splitext (?x @ rest @ ''.zip''))) =
        [p1, p2, p3, c, d] @ []"
      using d_chars(1) by (simp only: root) (simp add: split_on_no_sep)
    then show ?thesis by (intro exI [of _ "[]"]) simp
  next
    case False
    with rest obtain r where r: "rest = CHR ''-'' # r" by (cases rest) auto
    from splitext_zip_cases [of "?x @ rest"] obtain tail where
      "fst (splitext ((?x @ rest) @ ''.zip'')) = ?x @ CHR ''-'' # tail"
      using r by auto
    then have root: "fst (splitext (?x @ rest @ ''.zip'')) = ?x @ CHR ''-'' # tail"
      by simp
    have "split_on (CHR ''-'') (?x @ CHR ''-'' # tail) =
        [p1, p2, p3, c] @ split_on (CHR ''-'') (d @ CHR ''-'' # tail)"
      by (rule split_x)
    then have "split_on (CHR ''-'') (fst (splitext (?x @ rest @ ''.zip''))) =
        [p1, p2, p3, c, d] @ split_on (CHR ''-'') tail"
      using d_chars(1) by (simp only: root) (simp add: split_on_append_sep)
    then show ?thesis by (intro exI [of _ "split_on (CHR ''-'') tail"]) simp
  qed
qed

lemma show_files_step_ok:
  assumes "5 \<le> length (split_on (CHR ''-'') (fst (splitext name)))"
  shows "show_files_step (JStr name) (devices, build_dates) =
     Inr (if key_in (JStr (zip_codename name)) devices then devices
          else key_setitem (JStr (zip_codename name)) (JStr (zip_codename name)) devices,
          if (case map_of build_dates (zip_codename name) of
                None \<Rightarrow> True
              | Some cur \<Rightarrow> cur < zip_date name)
          then setitem (zip_codename name) (zip_date name) build_dates
          else build_dates)"
  unfolding show_files_step_def zip_codename_def zip_date_def Let_def
  using assms by simp

lemma show_files_step_short:
  assumes "length (split_on (CHR ''-'') (fst (splitext name))) < 5"
  shows "show_files_step (JStr name) st = Inl IndexError"
  using assms by (cases st) (auto simp: show_files_step_def Let_def)

lemma show_files_loop_short:
  "\<exists>n\<in>set names. length (split_on (CHR ''-'') (fst (splitext n))) < 5 \<Longrightarrow>
   show_files_loop (map JStr names) st = Inl IndexError"
proof (induction names arbitrary: st)
  case Nil
  then show ?case by simp
next
  case (Cons n ns)
  show ?case
  proof (cases "length (split_on (CHR ''-'') (fst (splitext n))) < 5")
    case True
    then show ?thesis by (simp add: show_files_step_short)
  next
    case False
    with Cons.prems have later: "\<exists>n\<in>set ns. length (split_on (CHR ''-'') (fst (splitext n))) < 5"
      by auto
    obtain devices build_dates where st: "st = (devices, build_dates)" by (cases st)
    from False have "5 \<le> length (split_on (CHR ''-'') (fst (splitext n)))" by simp
    from show_files_step_ok [OF this, of devices build_dates] obtain st' where
      "show_files_step (JStr n) st = Inr st'" using st by blast
    then show ?thesis using Cons.IH [OF later, of st'] by simp
  qed
qed

lemma short_name_short_root:
  assumes "length (split_on c name) < 5"
  shows "length (split_on c (fst (splitext name))) < 5"
proof -
  obtain k where "fst (splitext name) = take k name" using splitext_take by blast
  then show ?thesis using length_split_on_take [of c k name] assms by simp
qed

text \<open>
  Claim C8. Let every name of the manifest be a string and the device directory
  be well formed. If some name has fewer than five fields between hyphens, the
  handler of \<^verbatim>\<open>/\<close> ends in \<^verbatim>\<open>IndexError\<close>: nothing on the way checks the number of
  fields before the fixed positions 3 and 4 are read, so the error reaches the
  caller whatever the other names are.
\<close>

theorem show_files_index_error:
  assumes zips: "get_zips builds_json = Inr (map JStr names)"
    and dir: "list_all wf_device data"
    and short: "\<exists>n\<in>set names. length (split_on (CHR ''-'') n) < 5"
  shows "show_files strptime strftime data builds_json = Inl IndexError"
proof -
  from get_devices_ok [OF dir] obtain devs where devs: "get_devices data = Inr devs"
    by blast
  from short have "\<exists>n\<in>set names. length (split_on (CHR ''-'') (fst (splitext n))) < 5"
    using short_name_short_root by blast
  then have "show_files_loop (map JStr names) (devs, []) = Inl IndexError"
    by (rule show_files_loop_short)
  then show ?thesis using zips devs by (simp add: show_files_def)
qed


lemma set_setitem: "p \<in> set (setitem k v d) \<Longrightarrow> p = (k, v) \<or> p \<in> set d"
  by (induction d) (auto split: if_splits)

lemma values_setitem: "snd ` set (setitem k v d) \<subseteq> insert v (snd ` set d)"
  using set_setitem [of _ k v d] by force

text \<open>The running maximum that the loop keeps for one codename.\<close>

lemma running_max_Some:
  fixes a :: "'a::linorder"
  shows "foldl (\<lambda>acc d. Some (case acc of None \<Rightarrow> d | Some cur \<Rightarrow> max cur d)) (Some a) ds =
     Some (Max (insert a (set ds)))"
proof (induction ds arbitrary: a)
  case Nil
  show ?case by simp
next
  case (Cons d ds)
  have "Max (insert (max a d) (set ds)) = Max (insert a (insert d (set ds)))"
    by (cases "ds = []") (simp_all add: max.assoc)
  then show ?case using Cons.IH [of "max a d"] by simp
qed

lemma running_max_None:
  fixes d :: "'a::linorder"
  shows "foldl (\<lambda>acc d. Some (case acc of None \<Rightarrow> d | Some cur \<Rightarrow> max cur d)) None (d # ds) =
     Some (Max (set (d # ds)))"
  using running_max_Some [of d ds] by simp

lemma show_files_loop_ok:
  assumes "\<forall>n\<in>set names. 5 \<le> length (split_on (CHR ''-'') (fst (splitext n)))"
  shows "\<exists>devices' build_dates'.
     show_files_loop (map JStr names) (devices, build_dates) = Inr (devices', build_dates') \<and>
     (\<forall>k. map_of build_dates' k =
        foldl (\<lambda>acc d. Some (case acc of None \<Rightarrow> d | Some cur \<Rightarrow> max cur d))
          (map_of build_dates k) (map zip_date (filter (\<lambda>m. zip_codename m = k) names))) \<and>
     snd ` set build_dates' \<subseteq> snd ` set build_dates \<union> zip_date ` set names"
  using assms
proof (induction names arbitrary: devices build_dates)
  case Nil
  show ?case by simp
next
  case (Cons n ns)
  let ?f = "\<lambda>acc d. Some (case acc of None \<Rightarrow> d | Some cur \<Rightarrow> max cur d)"
  define devices1 where "devices1 =
    (if key_in (JStr (zip_codename n)) devices then devices
     else key_setitem (JStr (zip_codename n)) (JStr (zip_codename n)) devices)"
  define dates1 where "dates1 =
    (if (case map_of build_dates (zip_codename n) of None \<Rightarrow> True | Some cur \<Rightarrow> cur < zip_date n)
     then setitem (zip_codename n) (zip_date n) build_dates else build_dates)"
  from Cons.prems have n: "5 \<le> length (split_on (CHR ''-'') (fst (splitext n)))"
    and ns: "\<forall>n\<in>set ns. 5 \<le> length (split_on (CHR ''-'') (fst (splitext n)))"
    by simp_all
  have step: "show_files_step (JStr n) (devices, build_dates) = Inr (devices1, dates1)"
    unfolding devices1_def dates1_def by (rule show_files_step_ok [OF n])
  have at: "map_of dates1 (zip_codename n) = ?f (map_of build_dates (zip_codename n)) (zip_date n)"
    unfolding dates1_def
    by (auto simp: map_of_setitem max_def split: option.splits)
  have other: "k \<noteq> zip_codename n \<Longrightarrow> map_of dates1 k = map_of build_dates k" for k
    unfolding dates1_def by (simp add: map_of_setitem)
  have values1: "snd ` set dates1 \<subseteq> snd ` set build_dates \<union> {zip_date n}"
    unfolding dates1_def using values_setitem [of "zip_codename n" "zip_date n" build_dates]
    by auto
  from Cons.IH [OF ns, of devices1 dates1] obtain devices' build_dates' where
    loop: "show_files_loop (map JStr ns) (devices1, dates1) = Inr (devices', build_dates')"
    and maxes: "\<forall>k. map_of build_dates' k =
        foldl ?f (map_of dates1 k) (map zip_date (filter (\<lambda>m. zip_codename m = k) ns))"
    and vals: "snd ` set build_dates' \<subseteq> snd ` set dates1 \<union> zip_date ` set ns"
    by blast
  have "show_files_loop (map JStr (n # ns)) (devices, build_dates) = Inr (devices', build_dates')"
    using step loop by simp
  moreover have "map_of build_dates' k =
        foldl ?f (map_of build_dates k)
          (map zip_date (filter (\<lambda>m. zip_codename m = k) (n # ns)))" for k
    using maxes at other [of k] by (cases "k = zip_codename n") auto
  moreover have "snd ` set build_dates' \<subseteq> snd ` set build_dates \<union> zip_date ` set (n # ns)"
    using vals values1 by auto
  ultimately show ?case by blast
qed

lemma format_dates_ok:
  "\<forall>d\<in>snd ` set build_dates. \<exists>s. display_date strptime strftime d = Inr s \<Longrightarrow>
   \<exists>shown. format_dates strptime strftime build_dates = Inr shown \<and>
     map fst shown = map fst build_dates \<and>
     (\<forall>k d. map_of build_dates k = Some d \<longrightarrow>
        (\<exists>s. map_of shown k = Some s \<and> display_date strptime strftime d = Inr s))"
proof (induction build_dates)
  case Nil
  show ?case by simp
next
  case (Cons p rest)
  obtain k0 d0 where p: "p = (k0, d0)" by (cases p)
  from Cons.prems p obtain s0 where s0: "display_date strptime strftime d0 = Inr s0"
    by auto
  from Cons.prems have "\<forall>d\<in>snd ` set rest. \<exists>s. display_date strptime strftime d = Inr s"
    by auto
  from Cons.IH [OF this] obtain shown where
    shown: "format_dates strptime strftime rest = Inr shown"
    "map fst shown = map fst rest"
    "\<forall>k d. map_of rest k = Some d \<longrightarrow>
        (\<exists>s. map_of shown k = Some s \<and> display_date strptime strftime d = Inr s)"
    by blast
  have "format_dates strptime strftime (p # rest) = Inr ((k0, s0) # shown)"
    using p s0 shown(1) by simp
  moreover have "map fst ((k0, s0) # shown) = map fst (p # rest)"
    using p shown(2) by simp
  moreover have "\<forall>k d. map_of (p # rest) k = Some d \<longrightarrow>
        (\<exists>s. map_of ((k0, s0) # shown) k = Some s \<and> display_date strptime strftime d = Inr s)"
    using p s0 shown(3) by auto
  ultimately show ?case by blast
qed

text \<open>
  Claim C6. Let the names of the manifest be the strings \<open>names\<close>, each with at
  least five fields after its extension is removed and with a date field that
  the date functions accept, and let the device directory be well formed. Then
  the handler of \<^verbatim>\<open>/\<close> renders the index page; the codenames with a date on the
  page are exactly the codenames of \<open>names\<close> (field 3); and for every name the
  date shown for its codename is the formatted greatest date field (field 4,
  compared as strings) among all names with that codename. The right-hand side
  depends on the set of names only, not on their order.
\<close>

theorem show_files_latest_date:
  assumes zips: "get_zips builds_json = Inr (map JStr names)"
    and dir: "list_all wf_device data"
    and fields: "\<forall>n\<in>set names. 5 \<le> length (split_on (CHR ''-'') (fst (splitext n)))"
    and dates: "\<forall>n\<in>set names. \<exists>s. display_date strptime strftime (zip_date n) = Inr s"
  shows "\<exists>devices shown.
     show_files strptime strftime data builds_json = Inr (Render_latest devices shown) \<and>
     fst ` set shown = zip_codename ` set names \<and>
     (\<forall>n\<in>set names. \<exists>s. map_of shown (zip_codename n) = Some s \<and>
        display_date strptime strftime
          (Max (zip_date ` {m \<in> set names. zip_codename m = zip_codename n})) = Inr s)"
proof -
  let ?f = "\<lambda>acc d. Some (case acc of None \<Rightarrow> d | Some cur \<Rightarrow> max cur d)"
  from get_devices_ok [OF dir] obtain devs where devs: "get_devices data = Inr devs"
    by blast
  from show_files_loop_ok [OF fields, of devs "[]"] obtain devices build_dates where
    loop: "show_files_loop (map JStr names) (devs, []) = Inr (devices, build_dates)"
    and maxes: "\<forall>k. map_of build_dates k =
        foldl ?f None (map zip_date (filter (\<lambda>m. zip_codename m = k) names))"
    and vals: "snd ` set build_dates \<subseteq> zip_date ` set names"
    by auto
  have latest: "map_of build_dates (zip_codename n) =
      Some (Max (zip_date ` {m \<in> set names. zip_codename m = zip_codename n}))"
    if "n \<in> set names" for n
  proof -
    from that obtain d ds where
      ds: "map zip_date (filter (\<lambda>m. zip_codename m = zip_codename n) names) = d # ds"
      by (cases "map zip_date (filter (\<lambda>m. zip_codename m = zip_codename n) names)")
        (auto simp: filter_empty_conv)
    have "set (d # ds) = zip_date ` {m \<in> set names. zip_codename m = zip_codename n}"
      unfolding ds [symmetric] by auto
    then show ?thesis using maxes ds running_max_None [of d ds] by simp
  qed
  have absent: "map_of build_dates k = None" if "k \<notin> zip_codename ` set names" for k
  proof -
    from that have "filter (\<lambda>m. zip_codename m = k) names = []"
      by (auto simp: filter_empty_conv)
    then show ?thesis using maxes by simp
  qed
  have keys: "fst ` set build_dates = zip_codename ` set names"
  proof -
    have "k \<in> dom (map_of build_dates) \<longleftrightarrow> k \<in> zip_codename ` set names" for k
    proof
      assume "k \<in> dom (map_of build_dates)"
      then show "k \<in> zip_codename ` set names"
        using absent [of k] by (cases "k \<in> zip_codename ` set names") auto
    next
      assume "k \<in> zip_codename ` set names"
      then show "k \<in> dom (map_of build_dates)" using latest by auto
    qed
    then have "dom (map_of build_dates) = zip_codename ` set names"
      by blast
    then show ?thesis by (simp add: dom_map_of_conv_image_fst)
  qed
  have "\<forall>d\<in>snd ` set build_dates. \<exists>s. display_date strptime strftime d = Inr s"
  proof
    fix d
    assume "d \<in> snd ` set build_dates"
    with vals have "d \<in> zip_date ` set names" by (rule subsetD)
    then obtain n where "n \<in> set names" "d = zip_date n" by (rule imageE)
    with dates show "\<exists>s. display_date strptime strftime d = Inr s" by simp
  qed
  from format_dates_ok [OF this] obtain shown where
    shown: "format_dates strptime strftime build_dates = Inr shown"
    "map fst shown = map fst build_dates"
    "\<forall>k d. map_of build_dates k = Some d \<longrightarrow>
        (\<exists>s. map_of shown k = Some s \<and> display_date strptime strftime d = Inr s)"
    by blast
  have "show_files strptime strftime data builds_json = Inr (Render_latest devices shown)"
    using zips devs loop shown(1) by (simp add: show_files_def)
  moreover have "fst ` set shown = zip_codename ` set names"
  proof -
    have "fst ` set shown = set (map fst shown)" by simp
    also have "\<dots> = fst ` set build_dates" unfolding shown(2) by simp
    finally show ?thesis using keys by simp
  qed
  moreover have "\<forall>n\<in>set names. \<exists>s. map_of shown (zip_codename n) = Some s \<and>
        display_date strptime strftime
          (Max (zip_date ` {m \<in> set names. zip_codename m = zip_codename n})) = Inr s"
  proof
    fix n
    assume "n \<in> set names"
    from shown(3) latest [OF this]
    show "\<exists>s. map_of shown (zip_codename n) = Some s \<and>
        display_date strptime strftime
          (Max (zip_date ` {m \<in> set names. zip_codename m = zip_codename n})) = Inr s"
      by simp
  qed
  ultimately show ?thesis by (intro exI conjI)
qed


text \<open>
  Claim C7. Let \<open>name\<close> be \<^verbatim>\<open>P-P-P-<codename>-<YYYYMMDD>\<close>, then nothing or further
  fields that start with a hyphen, then \<^verbatim>\<open>.zip\<close>, where the three prefixes and the
  codename contain no hyphen and the date is eight digits. Then field 3 of the
  name is the codename and field 4 is the date; the loop body of the handler of
  \<^verbatim>\<open>/\<close> enters the codename into the devices when it is new and keeps the date
  when it is the first or a greater one for that codename; and for a manifest
  with this name alone the page shows for the codename the result of formatting
  with \<^verbatim>\<open>%A, %d %B - %Y\<close> what \<^verbatim>\<open>%Y%m%d\<close> parses from the date.
\<close>

theorem filename_deriver:
  assumes p1: "CHR ''-'' \<notin> set p1" and p2: "CHR ''-'' \<notin> set p2" and p3: "CHR ''-'' \<notin> set p3"
    and c: "CHR ''-'' \<notin> set c"
    and len: "length d = 8" and digits: "list_all is_digit d"
    and rest: "rest = [] \<or> hd rest = CHR ''-''"
    and name: "name = p1 @ ''-'' @ p2 @ ''-'' @ p3 @ ''-'' @ c @ ''-'' @ d @ rest @ ''.zip''"
  shows "zip_codename name = c \<and> zip_date name = d \<and>
     show_files_step (JStr name) (devices, build_dates) =
       Inr (if key_in (JStr c) devices then devices
            else key_setitem (JStr c) (JStr c) devices,
            if (case map_of build_dates c of None \<Rightarrow> True | Some cur \<Rightarrow> cur < d)
            then setitem c d build_dates else build_dates) \<and>
     (get_zips builds_json = Inr [JStr name] \<and> get_devices data = Inr devices \<and>
      strptime d ''%Y%m%d'' = Inr t \<and> strftime t ''%A, %d %B - %Y'' = Inr shown \<longrightarrow>
        show_files strptime strftime data builds_json =
          Inr (Render_latest
                (if key_in (JStr c) devices then devices
                 else key_setitem (JStr c) (JStr c) devices)
                [(c, shown)]))"
proof -
  from well_formed_fields [OF p1 p2 p3 c len digits rest] obtain more where
    fields: "split_on (CHR ''-'') (fst (splitext name)) = [p1, p2, p3, c, d] @ more"
    unfolding name by blast
  have codename: "zip_codename name = c" and date: "zip_date name = d"
    by (simp_all add: zip_codename_def zip_date_def fields)
  have five: "5 \<le> length (split_on (CHR ''-'') (fst (splitext name)))"
    by (simp add: fields)
  have step: "show_files_step (JStr name) (devices, build_dates) =
       Inr (if key_in (JStr c) devices then devices
            else key_setitem (JStr c) (JStr c) devices,
            if (case map_of build_dates c of None \<Rightarrow> True | Some cur \<Rightarrow> cur < d)
            then setitem c d build_dates else build_dates)" for build_dates
    using show_files_step_ok [OF five, of devices build_dates] unfolding codename date .
  have "show_files strptime strftime data builds_json =
          Inr (Render_latest
                (if key_in (JStr c) devices then devices
                 else key_setitem (JStr c) (JStr c) devices)
                [(c, shown)])"
    if "get_zips builds_json = Inr [JStr name]" "get_devices data = Inr devices"
      "strptime d ''%Y%m%d'' = Inr t" "strftime t ''%A, %d %B - %Y'' = Inr shown"
    using that step [of "[]"] by (simp add: show_files_def display_date_def)
  with codename date step show ?thesis by blast
qed

subsection \<open>The index route on the example documents\<close>

lemma example_zips: "get_zips example_builds = Inr (map JStr example_names)"
  by (simp add: example_builds_def example_names_def gapps_jan5_def official_jan1_def
      official_mar1_def gapps_dec25_def beta_feb2_def official_apr10_def mk_build_def
      getitem_def)

lemma example_codenames:
  "map zip_codename example_names =
     [''mido'', ''mido'', ''mido'', ''mido'', ''whyred'', ''beryllium'']"
  by code_simp

lemma example_dates:
  "map zip_date example_names =
     [''20200105'', ''20200101'', ''20200301'', ''20191225'', ''20200202'', ''20200410'']"
  by code_simp

lemma example_fields:
  "list_all (\<lambda>n. 5 \<le> length (split_on (CHR ''-'') (fst (splitext n)))) example_names"
  by code_simp

lemmas date_defs =
  display_date_def py_strptime_def strptime_Ymd_def month_matches_def day_matches_def
  two_chars_def one_char_def is_digit_def int_of_digits_def digit_val_def days_in_month_def
  is_leap_def py_strftime_def weekday_def ymd2ord_def days_before_year_def
  days_before_month_def day_names_def month_names_def two_digits_def digit_char_def
  upto.simps

lemma example_display:
  "map (display_date py_strptime py_strftime)
     [''20200105'', ''20200101'', ''20200301'', ''20191225'', ''20200202'', ''20200410''] =
     [Inr ''Sunday, 05 January - 2020'', Inr ''Wednesday, 01 January - 2020'',
      Inr ''Sunday, 01 March - 2020'', Inr ''Wednesday, 25 December - 2019'',
      Inr ''Sunday, 02 February - 2020'', Inr ''Friday, 10 April - 2020'']"
  by (simp add: date_defs)

text \<open>The example manifest lists for \<open>mido\<close> the dates 20200105, 20200101,
  20200301 and 20191225, in that order: the index page shows 1 March 2020.\<close>

theorem show_files_latest_date_witness:
  "map_of (case show_files py_strptime py_strftime example_devices example_builds of
             Inr (Render_latest devices shown) \<Rightarrow> shown
           | _ \<Rightarrow> []) ''mido'' = Some ''Sunday, 01 March - 2020''"
proof -
  have fields: "\<forall>n\<in>set example_names. 5 \<le> length (split_on (CHR ''-'') (fst (splitext n)))"
    using example_fields by (simp add: list_all_iff)
  have dates: "\<forall>n\<in>set example_names. \<exists>s. display_date py_strptime py_strftime (zip_date n) = Inr s"
    using example_dates example_display by (simp add: example_names_def)
  have mido: "''AOSiP-10-Official-mido-20200101.zip'' \<in> set example_names"
    by (simp add: example_names_def)
  have codename: "zip_codename ''AOSiP-10-Official-mido-20200101.zip'' = ''mido''"
    using example_codenames by (simp add: example_names_def)
  have "map zip_date (filter (\<lambda>m. zip_codename m = ''mido'') example_names) =
      [''20200105'', ''20200101'', ''20200301'', ''20191225'']"
    by code_simp
  moreover have "zip_date ` {m \<in> set example_names. zip_codename m = ''mido''} =
      set (map zip_date (filter (\<lambda>m. zip_codename m = ''mido'') example_names))"
    by auto
  ultimately have "zip_date ` {m \<in> set example_names. zip_codename m = ''mido''} =
      set [''20200105'', ''20200101'', ''20200301'', ''20191225'']"
    by simp
  then have greatest: "Max (zip_date ` {m \<in> set example_names. zip_codename m = ''mido''}) =
      ''20200301''"
    by simp
  have shown: "display_date py_strptime py_strftime ''20200301'' = Inr ''Sunday, 01 March - 2020''"
    using example_display by simp
  from show_files_latest_date [OF example_zips example_devices_wf fields dates]
  obtain devices shown where
    page: "show_files py_strptime py_strftime example_devices example_builds =
      Inr (Render_latest devices shown)"
    and latest: "\<forall>n\<in>set example_names. \<exists>s. map_of shown (zip_codename n) = Some s \<and>
        display_date py_strptime py_strftime
          (Max (zip_date ` {m \<in> set example_names. zip_codename m = zip_codename n})) = Inr s"
    by blast
  from bspec [OF latest mido] obtain s where
    s: "map_of shown (zip_codename ''AOSiP-10-Official-mido-20200101.zip'') = Some s"
      "display_date py_strptime py_strftime
         (Max (zip_date ` {m \<in> set example_names.
            zip_codename m = zip_codename ''AOSiP-10-Official-mido-20200101.zip''})) = Inr s"
    by (elim exE conjE)
  from s(2) have "s = ''Sunday, 01 March - 2020''"
    unfolding codename greatest shown by simp
  with s(1) have "map_of shown ''mido'' = Some ''Sunday, 01 March - 2020''"
    unfolding codename by simp
  then show ?thesis unfolding page by simp
qed

text \<open>The name \<^verbatim>\<open>AOSiP-10-mido.zip\<close> has three fields.\<close>

theorem show_files_index_error_witness:
  "show_files py_strptime py_strftime example_devices no_date_builds = Inl IndexError"
proof -
  have zips: "get_zips no_date_builds = Inr (map JStr [''AOSiP-10-mido.zip''])"
    by (simp add: no_date_builds_def getitem_def)
  have short: "\<exists>n\<in>set [''AOSiP-10-mido.zip'']. length (split_on (CHR ''-'') n) < 5"
    by simp
  show ?thesis
    by (rule show_files_index_error [OF zips example_devices_wf short])
qed

text \<open>For the manifest with the single name
  \<^verbatim>\<open>AOSiP-10-Official-beryllium-20200410.zip\<close> the page shows \<open>beryllium\<close> with
  Friday, 10 April - 2020.\<close>

theorem filename_deriver_witness:
  "show_files py_strptime py_strftime example_devices [(''beryllium'', [official_apr10])] =
     Inr (Render_latest
       [(JStr ''mido'', JStr ''Redmi Note 4''), (JStr ''tissot'', JStr ''Mi A1''),
        (JStr ''beryllium'', JStr ''beryllium'')]
       [(''beryllium'', ''Friday, 10 April - 2020'')])"
proof -
  have prefixes: "CHR ''-'' \<notin> set ''AOSiP''" "CHR ''-'' \<notin> set ''10''"
    "CHR ''-'' \<notin> set ''Official''" "CHR ''-'' \<notin> set ''beryllium''"
    by simp_all
  have date: "length ''20200410'' = 8" "list_all is_digit ''20200410''"
    by (simp_all add: is_digit_def)
  have rest: "[] = [] \<or> hd [] = CHR ''-''"
    by simp
  have name: "''AOSiP-10-Official-beryllium-20200410.zip'' =
      ''AOSiP'' @ ''-'' @ ''10'' @ ''-'' @ ''Official'' @ ''-'' @ ''beryllium'' @ ''-''
        @ ''20200410'' @ [] @ ''.zip''"
    by simp
  have inputs: "get_zips [(''beryllium'', [official_apr10])] =
        Inr [JStr ''AOSiP-10-Official-beryllium-20200410.zip''] \<and>
      get_devices example_devices =
        Inr [(JStr ''mido'', JStr ''Redmi Note 4''), (JStr ''tissot'', JStr ''Mi A1'')] \<and>
      py_strptime ''20200410'' ''%Y%m%d'' = Inr \<lparr>year = 2020, month = 4, day = 10\<rparr> \<and>
      py_strftime \<lparr>year = 2020, month = 4, day = 10\<rparr> ''%A, %d %B - %Y'' =
        Inr ''Friday, 10 April - 2020''"
    by (simp add: official_apr10_def mk_build_def getitem_def get_devices_def
        example_devices_def date_defs)
  from filename_deriver [OF prefixes date rest name,
      of "[(JStr ''mido'', JStr ''Redmi Note 4''), (JStr ''tissot'', JStr ''Mi A1'')]" "[]"
        "[(''beryllium'', [official_apr10])]" example_devices py_strptime
        "\<lparr>year = 2020, month = 4, day = 10\<rparr>" py_strftime "''Friday, 10 April - 2020''"]
    inputs
  show ?thesis by (simp add: key_in_def)
qed

end
